theory Spec2Isabelle
  imports Main "HOL-Library.Sublist"
begin

section \<open>The loaded document\<close>

text \<open>
  \<^verbatim>\<open>load_openapi_spec\<close> returns what \<^verbatim>\<open>json.load\<close> or \<^verbatim>\<open>yaml.safe_load\<close> builds: a tree
  of dicts, lists and scalars. A dict is an association list in insertion order, as
  Python's \<^verbatim>\<open>dict\<close> iterates; its keys are strings, as JSON has them. Floats and the
  non-string keys YAML allows are outside the tree modelled here. A character of a
  string is a \<^typ>\<open>char\<close>.
\<close>

datatype node =
    PNone
  | PBool bool
  | PInt int
  | PStr string
  | PList "node list"
  | PDict "(string \<times> node) list"

text \<open>The built-in exceptions the converter can raise; none is caught anywhere.\<close>

datatype error = KeyError | TypeError | AttributeError | IndexError

subsection \<open>Python operations on a node\<close>

text \<open>\<^verbatim>\<open>n[k]\<close> with a string \<open>k\<close>: only a dict can be indexed by a string.\<close>

definition py_getitem :: "node \<Rightarrow> string \<Rightarrow> error + node" where
  "py_getitem n k =
     (case n of
        PDict kvs \<Rightarrow> (case map_of kvs k of None \<Rightarrow> Inl KeyError | Some v \<Rightarrow> Inr v)
      | _ \<Rightarrow> Inl TypeError)"

text \<open>\<^verbatim>\<open>n[0]\<close>: the first element of a list, the first character of a string; no
  dict of the model has the key \<open>0\<close>.\<close>

definition py_getitem0 :: "node \<Rightarrow> error + node" where
  "py_getitem0 n =
     (case n of
        PList xs \<Rightarrow> (case xs of [] \<Rightarrow> Inl IndexError | x # _ \<Rightarrow> Inr x)
      | PStr s \<Rightarrow> (case s of [] \<Rightarrow> Inl IndexError | c # _ \<Rightarrow> Inr (PStr [c]))
      | PDict kvs \<Rightarrow> Inl KeyError
      | _ \<Rightarrow> Inl TypeError)"

text \<open>\<^verbatim>\<open>n.get(k, default)\<close>: a method of dicts only.\<close>

definition py_get :: "node \<Rightarrow> string \<Rightarrow> node \<Rightarrow> error + node" where
  "py_get n k dflt =
     (case n of
        PDict kvs \<Rightarrow> (case map_of kvs k of None \<Rightarrow> Inr dflt | Some v \<Rightarrow> Inr v)
      | _ \<Rightarrow> Inl AttributeError)"

text \<open>\<^verbatim>\<open>k in n\<close> for a string \<open>k\<close>: a key of a dict, an element of a list, a substring
  of a string; the other scalars are not containers.\<close>

definition py_contains :: "string \<Rightarrow> node \<Rightarrow> error + bool" where
  "py_contains k n =
     (case n of
        PDict kvs \<Rightarrow> Inr (map_of kvs k \<noteq> None)
      | PList xs \<Rightarrow> Inr (List.member xs (PStr k))
      | PStr s \<Rightarrow> Inr (sublist k s)
      | _ \<Rightarrow> Inl TypeError)"

text \<open>\<^verbatim>\<open>n.items()\<close> and \<^verbatim>\<open>n.keys()\<close>: methods of dicts only.\<close>

definition py_items :: "node \<Rightarrow> error + (string \<times> node) list" where
  "py_items n = (case n of PDict kvs \<Rightarrow> Inr kvs | _ \<Rightarrow> Inl AttributeError)"

definition py_keys :: "node \<Rightarrow> error + string list" where
  "py_keys n = (case n of PDict kvs \<Rightarrow> Inr (map fst kvs) | _ \<Rightarrow> Inl AttributeError)"

text \<open>What \<^verbatim>\<open>for x in n\<close> and \<^verbatim>\<open>list.extend(n)\<close> iterate over: the elements of a list,
  the keys of a dict, the characters of a string.\<close>

definition py_iter :: "node \<Rightarrow> error + node list" where
  "py_iter n =
     (case n of
        PList xs \<Rightarrow> Inr xs
      | PDict kvs \<Rightarrow> Inr (map (\<lambda>kv. PStr (fst kv)) kvs)
      | PStr s \<Rightarrow> Inr (map (\<lambda>c. PStr [c]) s)
      | _ \<Rightarrow> Inl TypeError)"

text \<open>The truth value of a node in an \<^verbatim>\<open>if\<close>.\<close>

definition py_truthy :: "node \<Rightarrow> bool" where
  "py_truthy n =
     (case n of
        PNone \<Rightarrow> False
      | PBool b \<Rightarrow> b
      | PInt i \<Rightarrow> i \<noteq> 0
      | PStr s \<Rightarrow> s \<noteq> []
      | PList xs \<Rightarrow> xs \<noteq> []
      | PDict kvs \<Rightarrow> kvs \<noteq> [])"

subsection \<open>String methods\<close>

text \<open>\<^verbatim>\<open>s.lstrip(chars)\<close> drops every leading character that occurs in \<open>chars\<close>; it
  does not remove a prefix.\<close>

definition lstrip :: "string \<Rightarrow> string \<Rightarrow> string" where
  "lstrip chars s = dropWhile (\<lambda>c. c \<in> set chars) s"

text \<open>\<^verbatim>\<open>s.split(sep)\<close> for a one-character separator: always at least one piece.\<close>

fun py_split :: "char \<Rightarrow> string \<Rightarrow> string list" where
  "py_split sep [] = [[]]"
| "py_split sep (c # s) =
     (if c = sep then [] # py_split sep s
      else (case py_split sep s of [] \<Rightarrow> [[c]] | w # ws \<Rightarrow> (c # w) # ws))"

text \<open>\<^verbatim>\<open>sep.join(items)\<close> on strings.\<close>

fun join :: "string \<Rightarrow> string list \<Rightarrow> string" where
  "join sep [] = []"
| "join sep [w] = w"
| "join sep (w # v # ws) = w @ sep @ join sep (v # ws)"

section \<open>Reference Resolver\<close>

text \<open>Lines 17 to 19 of \<^verbatim>\<open>resolve_ref\<close>: \<^verbatim>\<open>for key in keys: result = result[key]\<close>.\<close>

fun traverse :: "node \<Rightarrow> string list \<Rightarrow> error + node" where
  "traverse result [] = Inr result"
| "traverse result (key # keys) =
     (case py_getitem result key of
        Inl e \<Rightarrow> Inl e
      | Inr r \<Rightarrow> traverse r keys)"

text \<open>\<^verbatim>\<open>resolve_ref(ref, spec)\<close>. A \<open>ref\<close> that is no string has no \<^verbatim>\<open>lstrip\<close>.\<close>

definition resolve_ref :: "node \<Rightarrow> node \<Rightarrow> error + node" where
  "resolve_ref ref spec =
     (case ref of
        PStr s \<Rightarrow> traverse spec (py_split CHR ''/'' (lstrip ''#/'' s))
      | _ \<Rightarrow> Inl AttributeError)"

text \<open>The idiom \<^verbatim>\<open>if '$ref' in x: x = resolve_ref(x['$ref'], openapi_spec)\<close>, which the
  converter applies to parameters, schemas, request bodies and properties.\<close>

definition deref :: "node \<Rightarrow> node \<Rightarrow> error + node" where
  "deref spec x =
     (case py_contains ''$ref'' x of
        Inl e \<Rightarrow> Inl e
      | Inr has_ref \<Rightarrow>
          if has_ref then
            (case py_getitem x ''$ref'' of
               Inl e \<Rightarrow> Inl e
             | Inr r \<Rightarrow> resolve_ref r spec)
          else Inr x)"

section \<open>The emitted function descriptors\<close>

text \<open>The dict \<^verbatim>\<open>{"type": ..., "description": ...}\<close> stored for one property. Both
  values are whatever node the document holds there.\<close>

record property_descriptor =
  pd_type :: node
  pd_description :: node

text \<open>
  An emitted dict is built by assignment, so its keys are whatever hashable values the
  document supplies as names. Python compares keys with \<^verbatim>\<open>==\<close>, under which
  \<^verbatim>\<open>True == 1\<close> and \<^verbatim>\<open>False == 0\<close>; lists and dicts are unhashable.
\<close>

definition py_hashable :: "node \<Rightarrow> bool" where
  "py_hashable n = (case n of PList _ \<Rightarrow> False | PDict _ \<Rightarrow> False | _ \<Rightarrow> True)"

fun key_eq :: "node \<Rightarrow> node \<Rightarrow> bool" where
  "key_eq (PBool b) (PInt i) = ((if b then 1 else 0) = i)"
| "key_eq (PInt i) (PBool b) = (i = (if b then 1 else 0))"
| "key_eq x y = (x = y)"

text \<open>\<^verbatim>\<open>d[k] = v\<close>: an existing key keeps its place (and the key object first
  inserted), a new key goes to the end.\<close>

fun dict_set :: "(node \<times> 'v) list \<Rightarrow> node \<Rightarrow> 'v \<Rightarrow> (node \<times> 'v) list" where
  "dict_set [] k v = [(k, v)]"
| "dict_set ((k', v') # d) k v =
     (if key_eq k' k then (k', v) # d else (k', v') # dict_set d k v)"

text \<open>\<^verbatim>\<open>d.update(other)\<close>: the assignments \<^verbatim>\<open>d[k] = v\<close> in the order of \<open>other\<close>.\<close>

fun dict_update :: "(node \<times> 'v) list \<Rightarrow> (node \<times> 'v) list \<Rightarrow> (node \<times> 'v) list" where
  "dict_update d [] = d"
| "dict_update d ((k, v) # other) = dict_update (dict_set d k v) other"

text \<open>Reading an emitted dict: \<^verbatim>\<open>d.get(k)\<close>.\<close>

fun dict_lookup :: "(node \<times> 'v) list \<Rightarrow> node \<Rightarrow> 'v option" where
  "dict_lookup [] k = None"
| "dict_lookup ((k', v') # d) k = (if key_eq k' k then Some v' else dict_lookup d k)"

record parameters =
  ps_type :: node
  ps_properties :: "(node \<times> property_descriptor) list"
  ps_required :: "node list"

record function_descriptor =
  fd_name :: node
  fd_description :: node
  fd_parameters :: parameters

text \<open>The four in-place updates of \<^verbatim>\<open>function['parameters']\<close> (lines 76, 78, 91, 92).\<close>

definition set_property ::
  "function_descriptor \<Rightarrow> node \<Rightarrow> property_descriptor \<Rightarrow> function_descriptor" where
  "set_property function k v =
     function\<lparr>fd_parameters := (fd_parameters function)
       \<lparr>ps_properties := dict_set (ps_properties (fd_parameters function)) k v\<rparr>\<rparr>"

definition append_required :: "function_descriptor \<Rightarrow> node \<Rightarrow> function_descriptor" where
  "append_required function n =
     function\<lparr>fd_parameters := (fd_parameters function)
       \<lparr>ps_required := ps_required (fd_parameters function) @ [n]\<rparr>\<rparr>"

definition update_properties ::
  "function_descriptor \<Rightarrow> (node \<times> property_descriptor) list \<Rightarrow> function_descriptor" where
  "update_properties function properties =
     function\<lparr>fd_parameters := (fd_parameters function)
       \<lparr>ps_properties := dict_update (ps_properties (fd_parameters function)) properties\<rparr>\<rparr>"

definition extend_required :: "function_descriptor \<Rightarrow> node list \<Rightarrow> function_descriptor" where
  "extend_required function ns =
     function\<lparr>fd_parameters := (fd_parameters function)
       \<lparr>ps_required := ps_required (fd_parameters function) @ ns\<rparr>\<rparr>"

section \<open>Schema Flattener\<close>

text \<open>The body of the loop of \<^verbatim>\<open>extract_properties\<close> (lines 36 to 42) for one property:
  the descriptor it stores under \<open>prop_name\<close>.\<close>

definition property_of :: "node \<Rightarrow> node \<Rightarrow> error + property_descriptor" where
  "property_of spec prop_details0 =
     (case deref spec prop_details0 of
        Inl e \<Rightarrow> Inl e
      | Inr prop_details \<Rightarrow>
     (case py_get prop_details ''type'' (PStr ''object'') of
        Inl e \<Rightarrow> Inl e
      | Inr prop_type \<Rightarrow>
     (case py_get prop_details ''description'' (PStr []) of
        Inl e \<Rightarrow> Inl e
      | Inr descr \<Rightarrow> Inr \<lparr>pd_type = prop_type, pd_description = descr\<rparr>)))"

text \<open>The loop \<^verbatim>\<open>for prop_name, prop_details in props.items()\<close> with the dict
  \<open>properties\<close> it fills.\<close>

fun extract_loop ::
  "node \<Rightarrow> (node \<times> property_descriptor) list \<Rightarrow> (string \<times> node) list \<Rightarrow>
   error + (node \<times> property_descriptor) list" where
  "extract_loop spec properties [] = Inr properties"
| "extract_loop spec properties ((prop_name, prop_details) # rest) =
     (case property_of spec prop_details of
        Inl e \<Rightarrow> Inl e
      | Inr d \<Rightarrow> extract_loop spec (dict_set properties (PStr prop_name) d) rest)"

text \<open>\<^verbatim>\<open>extract_properties(schema, openapi_spec)\<close>. The second component is
  \<^verbatim>\<open>schema.get('required', [])\<close> as it stands, whatever node that is.\<close>

definition extract_properties ::
  "node \<Rightarrow> node \<Rightarrow> error + ((node \<times> property_descriptor) list \<times> node)" where
  "extract_properties schema0 spec =
     (case deref spec schema0 of
        Inl e \<Rightarrow> Inl e
      | Inr schema \<Rightarrow>
     (case py_contains ''properties'' schema of
        Inl e \<Rightarrow> Inl e
      | Inr has_props \<Rightarrow>
     (case (if has_props then py_getitem schema ''properties'' else Inr (PDict [])) of
        Inl e \<Rightarrow> Inl e
      | Inr props \<Rightarrow>
     (case py_get schema ''required'' (PList []) of
        Inl e \<Rightarrow> Inl e
      | Inr required \<Rightarrow>
     (case py_items props of
        Inl e \<Rightarrow> Inl e
      | Inr items \<Rightarrow>
     (case extract_loop spec [] items of
        Inl e \<Rightarrow> Inl e
      | Inr properties \<Rightarrow> Inr (properties, required)))))))"

section \<open>Text of a node\<close>

text \<open>
  An f-string puts \<^verbatim>\<open>str(x)\<close> into the text: a string as it is, anything else as its
  \<^verbatim>\<open>repr\<close>. The \<^verbatim>\<open>repr\<close> of a string quotes it with \<^verbatim>\<open>'\<close>, or with \<^verbatim>\<open>"\<close> when it
  holds a \<^verbatim>\<open>'\<close> and no \<^verbatim>\<open>"\<close>, and escapes the backslash, the quote and the
  characters that do not print.
\<close>

fun nat_digits :: "nat \<Rightarrow> string" where
  "nat_digits n =
     (if n < 10 then [char_of (48 + n)]
      else nat_digits (n div 10) @ [char_of (48 + n mod 10)])"

declare nat_digits.simps [simp del]

definition int_str :: "int \<Rightarrow> string" where
  "int_str i = (if i < 0 then CHR ''-'' # nat_digits (nat (- i)) else nat_digits (nat i))"

definition hex_digit :: "nat \<Rightarrow> char" where
  "hex_digit n = (if n < 10 then char_of (48 + n) else char_of (87 + n))"

definition repr_char :: "char \<Rightarrow> char \<Rightarrow> string" where
  "repr_char quote c =
     (let n = (of_char c :: nat) in
      if c = quote \<or> c = CHR 0x5C then [CHR 0x5C, c]
      else if n = 9 then [CHR 0x5C, CHR ''t'']
      else if n = 10 then [CHR 0x5C, CHR ''n'']
      else if n = 13 then [CHR 0x5C, CHR ''r'']
      else if n < 32 \<or> (127 \<le> n \<and> n \<le> 160) \<or> n = 173
        then [CHR 0x5C, CHR ''x'', hex_digit (n div 16), hex_digit (n mod 16)]
      else [c])"

definition repr_str :: "string \<Rightarrow> string" where
  "repr_str s =
     (let quote = (if CHR 0x27 \<in> set s \<and> CHR 0x22 \<notin> set s then CHR 0x22 else CHR 0x27)
      in quote # concat (map (repr_char quote) s) @ [quote])"

fun py_repr :: "node \<Rightarrow> string" where
  "py_repr PNone = ''None''"
| "py_repr (PBool b) = (if b then ''True'' else ''False'')"
| "py_repr (PInt i) = int_str i"
| "py_repr (PStr s) = repr_str s"
| "py_repr (PList xs) = ''['' @ join '', '' (map py_repr xs) @ '']''"
| "py_repr (PDict kvs) =
     ''{'' @ join '', '' (map (\<lambda>kv. repr_str (fst kv) @ '': '' @ py_repr (snd kv)) kvs) @ ''}''"

definition py_str :: "node \<Rightarrow> string" where
  "py_str n = (case n of PStr s \<Rightarrow> s | _ \<Rightarrow> py_repr n)"

text \<open>\<^verbatim>\<open>', '.join(items)\<close> on nodes: every item has to be a string.\<close>

fun strings_of :: "node list \<Rightarrow> error + string list" where
  "strings_of [] = Inr []"
| "strings_of (n # ns) =
     (case n of
        PStr s \<Rightarrow> (case strings_of ns of Inl e \<Rightarrow> Inl e | Inr ss \<Rightarrow> Inr (s # ss))
      | _ \<Rightarrow> Inl TypeError)"

section \<open>Operation Transformer\<close>

subsection \<open>The function descriptor of one operation (lines 52 to 92)\<close>

text \<open>The body of \<^verbatim>\<open>for param in details['parameters']\<close> (lines 65 to 78).\<close>

definition handle_param ::
  "node \<Rightarrow> function_descriptor \<Rightarrow> node \<Rightarrow> error + function_descriptor" where
  "handle_param spec function param0 =
     (case deref spec param0 of
        Inl e \<Rightarrow> Inl e
      | Inr param \<Rightarrow>
     (case py_getitem param ''name'' of
        Inl e \<Rightarrow> Inl e
      | Inr param_name \<Rightarrow>
     (case py_get param ''schema'' (PDict []) of
        Inl e \<Rightarrow> Inl e
      | Inr param_schema0 \<Rightarrow>
     (case deref spec param_schema0 of
        Inl e \<Rightarrow> Inl e
      | Inr param_schema \<Rightarrow>
     (case py_get param_schema ''type'' (PStr ''string'') of
        Inl e \<Rightarrow> Inl e
      | Inr param_type \<Rightarrow>
     (case py_get param ''description'' (PStr []) of
        Inl e \<Rightarrow> Inl e
      | Inr descr \<Rightarrow>
          if \<not> py_hashable param_name then Inl TypeError
          else
            (let function' = set_property function param_name
                   \<lparr>pd_type = param_type, pd_description = descr\<rparr>
             in case py_get param ''required'' (PBool False) of
                  Inl e \<Rightarrow> Inl e
                | Inr req \<Rightarrow>
                    Inr (if py_truthy req then append_required function' param_name
                         else function'))))))))"

fun params_loop ::
  "node \<Rightarrow> function_descriptor \<Rightarrow> node list \<Rightarrow> error + function_descriptor" where
  "params_loop spec function [] = Inr function"
| "params_loop spec function (param # rest) =
     (case handle_param spec function param of
        Inl e \<Rightarrow> Inl e
      | Inr function' \<Rightarrow> params_loop spec function' rest)"

text \<open>The body of \<^verbatim>\<open>for content_type, schema_obj in content.items()\<close> (lines 87 to 92).\<close>

definition handle_content ::
  "node \<Rightarrow> function_descriptor \<Rightarrow> node \<Rightarrow> error + function_descriptor" where
  "handle_content spec function schema_obj =
     (case py_getitem schema_obj ''schema'' of
        Inl e \<Rightarrow> Inl e
      | Inr schema0 \<Rightarrow>
     (case deref spec schema0 of
        Inl e \<Rightarrow> Inl e
      | Inr schema \<Rightarrow>
     (case extract_properties schema spec of
        Inl e \<Rightarrow> Inl e
      | Inr (properties, required) \<Rightarrow>
     (case py_iter required of
        Inl e \<Rightarrow> Inl e
      | Inr names \<Rightarrow>
          Inr (extend_required (update_properties function properties) names)))))"

fun content_loop ::
  "node \<Rightarrow> function_descriptor \<Rightarrow> (string \<times> node) list \<Rightarrow> error + function_descriptor" where
  "content_loop spec function [] = Inr function"
| "content_loop spec function ((content_type, schema_obj) # rest) =
     (case handle_content spec function schema_obj of
        Inl e \<Rightarrow> Inl e
      | Inr function' \<Rightarrow> content_loop spec function' rest)"

text \<open>\<^verbatim>\<open>if 'parameters' in details: ...\<close> (lines 63 to 78).\<close>

definition handle_parameters ::
  "node \<Rightarrow> node \<Rightarrow> function_descriptor \<Rightarrow> error + function_descriptor" where
  "handle_parameters spec details function =
     (case py_contains ''parameters'' details of
        Inl e \<Rightarrow> Inl e
      | Inr has_parameters \<Rightarrow>
          if has_parameters then
            (case py_getitem details ''parameters'' of
               Inl e \<Rightarrow> Inl e
             | Inr ps \<Rightarrow>
            (case py_iter ps of
               Inl e \<Rightarrow> Inl e
             | Inr params \<Rightarrow> params_loop spec function params))
          else Inr function)"

text \<open>\<^verbatim>\<open>if 'requestBody' in details: ...\<close> (lines 81 to 92).\<close>

definition handle_request_body ::
  "node \<Rightarrow> node \<Rightarrow> function_descriptor \<Rightarrow> error + function_descriptor" where
  "handle_request_body spec details function =
     (case py_contains ''requestBody'' details of
        Inl e \<Rightarrow> Inl e
      | Inr has_body \<Rightarrow>
          if has_body then
            (case py_getitem details ''requestBody'' of
               Inl e \<Rightarrow> Inl e
             | Inr request_body0 \<Rightarrow>
            (case deref spec request_body0 of
               Inl e \<Rightarrow> Inl e
             | Inr request_body \<Rightarrow>
            (case py_getitem request_body ''content'' of
               Inl e \<Rightarrow> Inl e
             | Inr content \<Rightarrow>
            (case py_items content of
               Inl e \<Rightarrow> Inl e
             | Inr items \<Rightarrow> content_loop spec function items))))
          else Inr function)"

definition build_function :: "node \<Rightarrow> node \<Rightarrow> error + function_descriptor" where
  "build_function spec details =
     (case py_getitem details ''operationId'' of
        Inl e \<Rightarrow> Inl e
      | Inr operation_id \<Rightarrow>
     (case py_get details ''summary'' (PStr []) of
        Inl e \<Rightarrow> Inl e
      | Inr summary \<Rightarrow>
     (case handle_parameters spec details
             \<lparr>fd_name = operation_id, fd_description = summary,
              fd_parameters =
                \<lparr>ps_type = PStr ''object'', ps_properties = [], ps_required = []\<rparr>\<rparr> of
        Inl e \<Rightarrow> Inl e
      | Inr function \<Rightarrow> handle_request_body spec details function)))"

subsection \<open>The stub text of one operation (lines 95 to 115)\<close>

text \<open>The comprehension
  \<^verbatim>\<open>[param['name'] for param in ... if param.get('in') == loc]\<close> of lines 96 and 97,
  over the raw items of \<^verbatim>\<open>details.get('parameters', [])\<close>.\<close>

fun params_in :: "string \<Rightarrow> node list \<Rightarrow> error + node list" where
  "params_in loc [] = Inr []"
| "params_in loc (param # rest) =
     (case py_get param ''in'' PNone of
        Inl e \<Rightarrow> Inl e
      | Inr l \<Rightarrow>
          if l = PStr loc then
            (case py_getitem param ''name'' of
               Inl e \<Rightarrow> Inl e
             | Inr n \<Rightarrow>
            (case params_in loc rest of
               Inl e \<Rightarrow> Inl e
             | Inr ns \<Rightarrow> Inr (n # ns)))
          else params_in loc rest)"

definition raw_params :: "string \<Rightarrow> node \<Rightarrow> error + node list" where
  "raw_params loc details =
     (case py_get details ''parameters'' (PList []) of
        Inl e \<Rightarrow> Inl e
      | Inr ps \<Rightarrow>
     (case py_iter ps of
        Inl e \<Rightarrow> Inl e
      | Inr params \<Rightarrow> params_in loc params))"

text \<open>Line 98: the chain of \<^verbatim>\<open>.get(..., {})\<close> from \<open>details\<close> down to the properties of
  the \<^verbatim>\<open>application/json\<close> schema.\<close>

definition request_body_params :: "node \<Rightarrow> error + node" where
  "request_body_params details =
     (case py_get details ''requestBody'' (PDict []) of
        Inl e \<Rightarrow> Inl e
      | Inr request_body \<Rightarrow>
     (case py_get request_body ''content'' (PDict []) of
        Inl e \<Rightarrow> Inl e
      | Inr content \<Rightarrow>
     (case py_get content ''application/json'' (PDict []) of
        Inl e \<Rightarrow> Inl e
      | Inr media \<Rightarrow>
     (case py_get media ''schema'' (PDict []) of
        Inl e \<Rightarrow> Inl e
      | Inr schema \<Rightarrow> py_get schema ''properties'' (PDict [])))))"

text \<open>The item \<^verbatim>\<open>f'"{param}": {param}'\<close> of lines 105 and 110.\<close>

definition dict_item :: "string \<Rightarrow> string" where
  "dict_item param = [CHR 0x22] @ param @ [CHR 0x22] @ '': '' @ param"

text \<open>The text assembled from line 100 to line 115, given the names already collected
  and the text of the server URL.\<close>

definition stub_text ::
  "string \<Rightarrow> string list \<Rightarrow> string list \<Rightarrow> string list \<Rightarrow> string \<Rightarrow> string \<Rightarrow> string" where
  "stub_text func_name path_params query_params body_params url path =
     ''def '' @ func_name @ ''('' @ join '', '' (path_params @ query_params @ body_params)
       @ ''):\<newline>''
     @ ''    url = '' @ [CHR 0x27] @ url @ path @ [CHR 0x27] @ ''\<newline>''
     @ ''    headers = {'' @ [CHR 0x27] @ ''Content-Type'' @ [CHR 0x27] @ '': ''
       @ [CHR 0x27] @ ''application/json'' @ [CHR 0x27] @ ''}\<newline>''
     @ (if query_params \<noteq> []
        then ''    params = {'' @ join '', '' (map dict_item query_params) @ ''}\<newline>''
        else ''    params = {}\<newline>'')
     @ (if body_params \<noteq> []
        then ''    body = {'' @ join '', '' (map dict_item body_params) @ ''}\<newline>''
          @ ''    response = requests.post(url, headers=headers, params=params, json=body)\<newline>''
        else ''    response = requests.get(url, headers=headers, params=params)\<newline>'')
     @ ''    return response.json()\<newline>''"

definition build_stub :: "node \<Rightarrow> string \<Rightarrow> node \<Rightarrow> error + string" where
  "build_stub spec path details =
     (case py_getitem details ''operationId'' of
        Inl e \<Rightarrow> Inl e
      | Inr func_name \<Rightarrow>
     (case raw_params ''path'' details of
        Inl e \<Rightarrow> Inl e
      | Inr path_params \<Rightarrow>
     (case raw_params ''query'' details of
        Inl e \<Rightarrow> Inl e
      | Inr query_params \<Rightarrow>
     (case request_body_params details of
        Inl e \<Rightarrow> Inl e
      | Inr body \<Rightarrow>
     (case py_keys body of
        Inl e \<Rightarrow> Inl e
      | Inr body_names \<Rightarrow>
     (case strings_of path_params of
        Inl e \<Rightarrow> Inl e
      | Inr path_names \<Rightarrow>
     (case strings_of query_params of
        Inl e \<Rightarrow> Inl e
      | Inr query_names \<Rightarrow>
     (case py_getitem spec ''servers'' of
        Inl e \<Rightarrow> Inl e
      | Inr servers \<Rightarrow>
     (case py_getitem0 servers of
        Inl e \<Rightarrow> Inl e
      | Inr server \<Rightarrow>
     (case py_getitem server ''url'' of
        Inl e \<Rightarrow> Inl e
      | Inr url \<Rightarrow>
          Inr (stub_text (py_str func_name) path_names query_names body_names
                 (py_str url) path)))))))))))"

subsection \<open>The two loops and the two output lists\<close>

definition transform_operation ::
  "node \<Rightarrow> string \<Rightarrow> node \<Rightarrow> error + (function_descriptor \<times> string)" where
  "transform_operation spec path details =
     (case build_function spec details of
        Inl e \<Rightarrow> Inl e
      | Inr function \<Rightarrow>
     (case build_stub spec path details of
        Inl e \<Rightarrow> Inl e
      | Inr function_code \<Rightarrow> Inr (function, function_code)))"

text \<open>The inner loop \<^verbatim>\<open>for method, details in methods.items()\<close>; the accumulator holds
  \<open>openai_functions\<close> and \<open>openai_function_codes\<close>, each appended to once per
  operation (lines 116 and 118).\<close>

fun methods_loop ::
  "node \<Rightarrow> string \<Rightarrow> function_descriptor list \<times> string list \<Rightarrow> (string \<times> node) list \<Rightarrow>
   error + (function_descriptor list \<times> string list)" where
  "methods_loop spec path acc [] = Inr acc"
| "methods_loop spec path (openai_functions, openai_function_codes) ((method, details) # rest) =
     (case transform_operation spec path details of
        Inl e \<Rightarrow> Inl e
      | Inr (function, function_code) \<Rightarrow>
          methods_loop spec path
            (openai_functions @ [function], openai_function_codes @ [function_code]) rest)"

text \<open>The outer loop \<^verbatim>\<open>for path, methods in openapi_spec['paths'].items()\<close>.\<close>

fun paths_loop ::
  "node \<Rightarrow> function_descriptor list \<times> string list \<Rightarrow> (string \<times> node) list \<Rightarrow>
   error + (function_descriptor list \<times> string list)" where
  "paths_loop spec acc [] = Inr acc"
| "paths_loop spec acc ((path, methods) # rest) =
     (case py_items methods of
        Inl e \<Rightarrow> Inl e
      | Inr ms \<Rightarrow>
     (case methods_loop spec path acc ms of
        Inl e \<Rightarrow> Inl e
      | Inr acc' \<Rightarrow> paths_loop spec acc' rest))"

definition transform_to_openai_format ::
  "node \<Rightarrow> error + (function_descriptor list \<times> string list)" where
  "transform_to_openai_format openapi_spec =
     (case py_getitem openapi_spec ''paths'' of
        Inl e \<Rightarrow> Inl e
      | Inr paths \<Rightarrow>
     (case py_items paths of
        Inl e \<Rightarrow> Inl e
      | Inr items \<Rightarrow> paths_loop openapi_spec ([], []) items))"

section \<open>What the loops are specified to compute\<close>

text \<open>
  The definitions of this section follow the specification's description of the
  transformer, not the code: the operations of a document in traversal order, what
  one parameter and one content type contribute, and the merged results. The theorems
  below compare them with the loops above.
\<close>

text \<open>All items of a list, or the first error.\<close>

fun collect :: "('a \<Rightarrow> error + 'b) \<Rightarrow> 'a list \<Rightarrow> error + 'b list" where
  "collect g [] = Inr []"
| "collect g (x # xs) =
     (case g x of
        Inl e \<Rightarrow> Inl e
      | Inr y \<Rightarrow> (case collect g xs of Inl e \<Rightarrow> Inl e | Inr ys \<Rightarrow> Inr (y # ys)))"

text \<open>The operations of the document: every (path, method, details), paths in document
  order and the methods of a path in document order.\<close>

definition path_operations :: "string \<times> node \<Rightarrow> error + (string \<times> string \<times> node) list" where
  "path_operations pm =
     (case py_items (snd pm) of
        Inl e \<Rightarrow> Inl e
      | Inr ms \<Rightarrow> Inr (map (\<lambda>md. (fst pm, fst md, snd md)) ms))"

definition operations :: "node \<Rightarrow> error + (string \<times> string \<times> node) list" where
  "operations spec =
     (case py_getitem spec ''paths'' of
        Inl e \<Rightarrow> Inl e
      | Inr paths \<Rightarrow>
     (case py_items paths of
        Inl e \<Rightarrow> Inl e
      | Inr items \<Rightarrow>
     (case collect path_operations items of
        Inl e \<Rightarrow> Inl e
      | Inr opss \<Rightarrow> Inr (concat opss))))"

text \<open>The parameter entries of an operation (none when it has no \<open>parameters\<close>) and the
  content-type entries of its request body, resolved when it is a reference (none when
  it has no \<open>requestBody\<close>).\<close>

definition operation_params :: "node \<Rightarrow> error + node list" where
  "operation_params details =
     (case py_get details ''parameters'' (PList []) of
        Inl e \<Rightarrow> Inl e
      | Inr ps \<Rightarrow> py_iter ps)"

definition operation_contents :: "node \<Rightarrow> node \<Rightarrow> error + (string \<times> node) list" where
  "operation_contents spec details =
     (case py_contains ''requestBody'' details of
        Inl e \<Rightarrow> Inl e
      | Inr has_body \<Rightarrow>
          if has_body then
            (case py_getitem details ''requestBody'' of
               Inl e \<Rightarrow> Inl e
             | Inr request_body0 \<Rightarrow>
            (case deref spec request_body0 of
               Inl e \<Rightarrow> Inl e
             | Inr request_body \<Rightarrow>
            (case py_getitem request_body ''content'' of
               Inl e \<Rightarrow> Inl e
             | Inr content \<Rightarrow> py_items content)))
          else Inr [])"

text \<open>One parameter entry: its name, its descriptor and whether it is marked required,
  read from the resolved parameter and its resolved schema.\<close>

definition param_entry :: "node \<Rightarrow> node \<Rightarrow> error + (node \<times> property_descriptor \<times> bool)" where
  "param_entry spec param0 =
     (case deref spec param0 of
        Inl e \<Rightarrow> Inl e
      | Inr param \<Rightarrow>
     (case py_getitem param ''name'' of
        Inl e \<Rightarrow> Inl e
      | Inr param_name \<Rightarrow>
     (case py_get param ''schema'' (PDict []) of
        Inl e \<Rightarrow> Inl e
      | Inr param_schema0 \<Rightarrow>
     (case deref spec param_schema0 of
        Inl e \<Rightarrow> Inl e
      | Inr param_schema \<Rightarrow>
     (case py_get param_schema ''type'' (PStr ''string'') of
        Inl e \<Rightarrow> Inl e
      | Inr param_type \<Rightarrow>
     (case py_get param ''description'' (PStr []) of
        Inl e \<Rightarrow> Inl e
      | Inr descr \<Rightarrow>
     (case py_get param ''required'' (PBool False) of
        Inl e \<Rightarrow> Inl e
      | Inr req \<Rightarrow>
          if py_hashable param_name
          then Inr (param_name, \<lparr>pd_type = param_type, pd_description = descr\<rparr>,
                    py_truthy req)
          else Inl TypeError)))))))"

text \<open>One content-type entry: the flattened properties of its resolved schema and the
  names its \<open>required\<close> list holds.\<close>

definition content_entry ::
  "node \<Rightarrow> node \<Rightarrow> error + ((node \<times> property_descriptor) list \<times> node list)" where
  "content_entry spec schema_obj =
     (case py_getitem schema_obj ''schema'' of
        Inl e \<Rightarrow> Inl e
      | Inr schema0 \<Rightarrow>
     (case deref spec schema0 of
        Inl e \<Rightarrow> Inl e
      | Inr schema \<Rightarrow>
     (case extract_properties schema spec of
        Inl e \<Rightarrow> Inl e
      | Inr (properties, required) \<Rightarrow>
     (case py_iter required of
        Inl e \<Rightarrow> Inl e
      | Inr names \<Rightarrow> Inr (properties, names)))))"

text \<open>Every property an operation contributes, in iteration order: one per parameter,
  then the flattened properties of each content type.\<close>

definition property_writes :: "node \<Rightarrow> node \<Rightarrow> error + (node \<times> property_descriptor) list" where
  "property_writes spec details =
     (case operation_params details of
        Inl e \<Rightarrow> Inl e
      | Inr params \<Rightarrow>
     (case collect (param_entry spec) params of
        Inl e \<Rightarrow> Inl e
      | Inr entries \<Rightarrow>
     (case operation_contents spec details of
        Inl e \<Rightarrow> Inl e
      | Inr items \<Rightarrow>
     (case collect (\<lambda>item. content_entry spec (snd item)) items of
        Inl e \<Rightarrow> Inl e
      | Inr contents \<Rightarrow>
          Inr (map (\<lambda>en. (fst en, fst (snd en))) entries @ concat (map fst contents))))))"

text \<open>The names of the parameters marked required, then each content type's required
  names, nothing removed.\<close>

definition required_names :: "node \<Rightarrow> node \<Rightarrow> error + node list" where
  "required_names spec details =
     (case operation_params details of
        Inl e \<Rightarrow> Inl e
      | Inr params \<Rightarrow>
     (case collect (param_entry spec) params of
        Inl e \<Rightarrow> Inl e
      | Inr entries \<Rightarrow>
     (case operation_contents spec details of
        Inl e \<Rightarrow> Inl e
      | Inr items \<Rightarrow>
     (case collect (\<lambda>item. content_entry spec (snd item)) items of
        Inl e \<Rightarrow> Inl e
      | Inr contents \<Rightarrow>
          Inr (map fst (filter (\<lambda>en. snd (snd en)) entries) @ concat (map snd contents))))))"

text \<open>The outputs of one operation of that list.\<close>

definition op_result ::
  "node \<Rightarrow> string \<times> string \<times> node \<Rightarrow> error + (function_descriptor \<times> string)" where
  "op_result spec op = transform_operation spec (fst op) (snd (snd op))"

text \<open>The last two lines of a stub that issues a GET (lines 113 and 115).\<close>

definition get_lines :: string where
  "get_lines =
     ''    response = requests.get(url, headers=headers, params=params)\<newline>'' @
     ''    return response.json()\<newline>''"

text \<open>The last three lines of a stub that issues a POST with the given body names
  (lines 110, 111 and 115).\<close>

definition post_lines :: "string list \<Rightarrow> string" where
  "post_lines body_params =
     ''    body = {'' @ join '', '' (map dict_item body_params) @ ''}\<newline>'' @
     ''    response = requests.post(url, headers=headers, params=params, json=body)\<newline>'' @
     ''    return response.json()\<newline>''"

section \<open>Example documents\<close>

text \<open>
  A small service description with a referenced parameter, a referenced request body,
  parameters that share a name, a request body under two content types other than
  \<^verbatim>\<open>application/json\<close> and one under \<^verbatim>\<open>application/json\<close>; then the descriptors and
  stubs the converter emits for it.
\<close>

definition limit_param :: node where
  "limit_param = PDict
     [(''name'', PStr ''limit''), (''in'', PStr ''query''),
      (''schema'', PDict [(''type'', PStr ''integer'')]), (''required'', PBool True)]"

definition tag_param :: node where
  "tag_param = PDict [(''name'', PStr ''tag''), (''in'', PStr ''query''), (''schema'', PDict [])]"

definition limit_ref :: node where
  "limit_ref = PDict [(''$ref'', PStr ''#/components/parameters/Limit'')]"

definition pet_properties :: "(string \<times> node) list" where
  "pet_properties =
     [(''name'', PDict [(''type'', PStr ''string''), (''description'', PStr ''Pet name'')]),
      (''tag'', PDict [])]"

definition pet_schema :: node where
  "pet_schema = PDict
     [(''properties'', PDict pet_properties), (''required'', PList [PStr ''name''])]"

definition pet_schema_ref :: node where
  "pet_schema_ref = PDict [(''$ref'', PStr ''#/components/schemas/Pet'')]"

definition pet_media :: node where
  "pet_media = PDict [(''schema'', pet_schema_ref)]"

definition pet_content :: node where
  "pet_content = PDict [(''application/json'', pet_media)]"

definition pet_body :: node where
  "pet_body = PDict [(''content'', pet_content)]"

definition pet_body_ref :: node where
  "pet_body_ref = PDict [(''$ref'', PStr ''#/components/requestBodies/PetBody'')]"

definition list_pets :: node where
  "list_pets = PDict
     [(''operationId'', PStr ''listPets''),
      (''parameters'', PList [limit_ref, tag_param])]"

definition create_pet :: node where
  "create_pet = PDict [(''operationId'', PStr ''createPet''), (''requestBody'', pet_body_ref)]"

definition xml_content :: node where
  "xml_content = PDict
     [(''application/xml'', PDict [(''schema'', PDict
        [(''properties'', PDict [(''name'', PDict [(''type'', PStr ''string'')])]),
         (''required'', PList [PStr ''name''])])]),
      (''text/plain'', PDict [(''schema'', PDict
        [(''properties'', PDict [(''name'', PDict [])])])])]"

definition update_pet :: node where
  "update_pet = PDict
     [(''operationId'', PStr ''updatePet''),
      (''summary'', PStr ''Update a pet''),
      (''parameters'', PList
        [PDict [(''name'', PStr ''id''), (''in'', PStr ''path''), (''required'', PBool True)],
         PDict [(''name'', PStr ''id''), (''in'', PStr ''query''),
                (''schema'', PDict [(''type'', PStr ''integer'')])],
         PDict [(''name'', PStr ''name''), (''in'', PStr ''header''),
                (''required'', PBool True)]]),
      (''requestBody'', PDict [(''content'', xml_content)])]"

definition thing_properties :: "(string \<times> node) list" where
  "thing_properties =
     [(''name'', PDict [(''type'', PStr ''string'')]),
      (''age'', PDict [(''type'', PStr ''integer'')])]"

definition thing_schema :: node where
  "thing_schema = PDict [(''properties'', PDict thing_properties)]"

definition thing_media :: node where
  "thing_media = PDict [(''schema'', thing_schema)]"

definition thing_content :: node where
  "thing_content = PDict [(''application/json'', thing_media)]"

definition thing_body :: node where
  "thing_body = PDict [(''content'', thing_content)]"

definition create_thing :: node where
  "create_thing = PDict
     [(''operationId'', PStr ''createThing''), (''requestBody'', thing_body)]"

text \<open>An operation whose request body is inline and whose \<^verbatim>\<open>application/json\<close> schema is a
  reference.\<close>

definition replace_pet :: node where
  "replace_pet = PDict [(''operationId'', PStr ''replacePet''), (''requestBody'', pet_body)]"

definition petstore :: node where
  "petstore = PDict
     [(''servers'', PList [PDict [(''url'', PStr ''https://api.example.com'')]]),
      (''components'', PDict
        [(''parameters'', PDict [(''Limit'', limit_param)]),
         (''schemas'', PDict [(''Pet'', pet_schema)]),
         (''requestBodies'', PDict [(''PetBody'', pet_body)])]),
      (''paths'', PDict
        [(''/pets'', PDict [(''get'', list_pets), (''post'', create_pet)]),
         (''/pets/{id}'', PDict [(''put'', update_pet)]),
         (''/things'', PDict [(''post'', create_thing)])])]"

definition petstore_operations :: "(string \<times> string \<times> node) list" where
  "petstore_operations =
     [(''/pets'', ''get'', list_pets), (''/pets'', ''post'', create_pet),
      (''/pets/{id}'', ''put'', update_pet), (''/things'', ''post'', create_thing)]"

definition plain :: "string \<Rightarrow> property_descriptor" where
  "plain t = \<lparr>pd_type = PStr t, pd_description = PStr []\<rparr>"

definition list_pets_function :: function_descriptor where
  "list_pets_function =
     \<lparr>fd_name = PStr ''listPets'', fd_description = PStr [],
      fd_parameters =
        \<lparr>ps_type = PStr ''object'',
         ps_properties = [(PStr ''limit'', plain ''integer''), (PStr ''tag'', plain ''string'')],
         ps_required = [PStr ''limit'']\<rparr>\<rparr>"

definition pet_flattened :: "(node \<times> property_descriptor) list" where
  "pet_flattened =
     [(PStr ''name'', \<lparr>pd_type = PStr ''string'', pd_description = PStr ''Pet name''\<rparr>),
      (PStr ''tag'', plain ''object'')]"

definition create_pet_function :: function_descriptor where
  "create_pet_function =
     \<lparr>fd_name = PStr ''createPet'', fd_description = PStr [],
      fd_parameters =
        \<lparr>ps_type = PStr ''object'', ps_properties = pet_flattened,
         ps_required = [PStr ''name'']\<rparr>\<rparr>"

definition update_pet_function :: function_descriptor where
  "update_pet_function =
     \<lparr>fd_name = PStr ''updatePet'', fd_description = PStr ''Update a pet'',
      fd_parameters =
        \<lparr>ps_type = PStr ''object'',
         ps_properties = [(PStr ''id'', plain ''integer''), (PStr ''name'', plain ''object'')],
         ps_required = [PStr ''id'', PStr ''name'', PStr ''name'']\<rparr>\<rparr>"

definition create_thing_function :: function_descriptor where
  "create_thing_function =
     \<lparr>fd_name = PStr ''createThing'', fd_description = PStr [],
      fd_parameters =
        \<lparr>ps_type = PStr ''object'',
         ps_properties = [(PStr ''name'', plain ''string''), (PStr ''age'', plain ''integer'')],
         ps_required = []\<rparr>\<rparr>"

definition replace_pet_function :: function_descriptor where
  "replace_pet_function =
     \<lparr>fd_name = PStr ''replacePet'', fd_description = PStr [],
      fd_parameters =
        \<lparr>ps_type = PStr ''object'', ps_properties = pet_flattened,
         ps_required = [PStr ''name'']\<rparr>\<rparr>"

definition replace_pet_stub :: string where
  "replace_pet_stub =
     ''def replacePet():\<newline>'' @
     ''    url = 'https://api.example.com/pets'\<newline>'' @
     ''    headers = {'Content-Type': 'application/json'}\<newline>'' @
     ''    params = {}\<newline>'' @
     get_lines"

definition list_pets_stub :: string where
  \<open>list_pets_stub =
     ''def listPets(tag):\<newline>'' @
     ''    url = 'https://api.example.com/pets'\<newline>'' @
     ''    headers = {'Content-Type': 'application/json'}\<newline>'' @
     ''    params = {"tag": tag}\<newline>'' @
     get_lines\<close>

definition create_pet_stub :: string where
  "create_pet_stub =
     ''def createPet():\<newline>'' @
     ''    url = 'https://api.example.com/pets'\<newline>'' @
     ''    headers = {'Content-Type': 'application/json'}\<newline>'' @
     ''    params = {}\<newline>'' @
     get_lines"

definition update_pet_stub :: string where
  \<open>update_pet_stub =
     ''def updatePet(id, id):\<newline>'' @
     ''    url = 'https://api.example.com/pets/{id}'\<newline>'' @
     ''    headers = {'Content-Type': 'application/json'}\<newline>'' @
     ''    params = {"id": id}\<newline>'' @
     get_lines\<close>

definition create_thing_stub :: string where
  \<open>create_thing_stub =
     ''def createThing(name, age):\<newline>'' @
     ''    url = 'https://api.example.com/things'\<newline>'' @
     ''    headers = {'Content-Type': 'application/json'}\<newline>'' @
     ''    params = {}\<newline>'' @
     ''    body = {"name": name, "age": age}\<newline>'' @
     ''    response = requests.post(url, headers=headers, params=params, json=body)\<newline>'' @
     ''    return response.json()\<newline>''\<close>

text \<open>Three documents with one operation each, and one assumed field missing in each:
  the \<open>operationId\<close>, the \<open>content\<close> of the request body, the \<open>servers\<close>.\<close>

definition unnamed_op :: node where
  "unnamed_op = PDict [(''summary'', PStr ''no operationId'')]"

definition no_operation_id :: node where
  "no_operation_id = PDict
     [(''servers'', PList [PDict [(''url'', PStr ''https://api.example.com'')]]),
      (''paths'', PDict [(''/a'', PDict [(''get'', unnamed_op)])])]"

definition bodiless_op :: node where
  "bodiless_op = PDict [(''operationId'', PStr ''send''), (''requestBody'', PDict [])]"

definition no_content :: node where
  "no_content = PDict
     [(''servers'', PList [PDict [(''url'', PStr ''https://api.example.com'')]]),
      (''paths'', PDict [(''/b'', PDict [(''post'', bodiless_op)])])]"

definition ping_op :: node where
  "ping_op = PDict [(''operationId'', PStr ''ping'')]"

definition no_servers :: node where
  "no_servers = PDict [(''paths'', PDict [(''/c'', PDict [(''get'', ping_op)])])]"

text \<open>A document whose root key starts with \<open>#\<close>, and a document with a parameter under
  \<open>components\<close>.\<close>

definition hash_doc :: node where
  "hash_doc = PDict [(''#defs'', PDict [(''Pet'', PDict [(''type'', PStr ''object'')])])]"


section \<open>The converter on a store of mutable objects\<close>

text \<open>
  The functions above compute what the converter returns. Whether it writes to its input
  is a question about Python's objects: lists and dicts are mutable and shared by
  reference, and several variables of the converter (\<open>param\<close>, \<open>schema\<close>, \<open>props\<close>,
  \<open>required\<close>, \<open>request_body_params\<close>) are bound to objects of the input. This section
  models the same code on a store. A value is a scalar or a reference to an object of
  the store; an object is a list or a dict; a new object gets the next free address. A
  run takes the store and returns the result, or the exception, with the store it
  leaves. The keys of a dict may be any scalar here. The temporary lists of the stub
  generation (lines 96, 97 and 100), which are built, read and dropped, are lists of
  values; a loop iterates over the items its object has when the loop starts.
\<close>

datatype val = VNone | VBool bool | VInt int | VStr string | VRef nat

datatype obj = OList "val list" | ODict "(val \<times> val) list"

type_synonym store = "obj list"

type_synonym 'a run = "store \<Rightarrow> (error + 'a) \<times> store"

definition ret :: "'a \<Rightarrow> 'a run" where
  "ret x = (\<lambda>s. (Inr x, s))"

definition bnd :: "'a run \<Rightarrow> ('a \<Rightarrow> 'b run) \<Rightarrow> 'b run" where
  "bnd m f = (\<lambda>s. case m s of (Inl e, s') \<Rightarrow> (Inl e, s') | (Inr x, s') \<Rightarrow> f x s')"

text \<open>Reading the store, allocating an object, overwriting the object at an address.\<close>

definition look :: "(store \<Rightarrow> error + 'a) \<Rightarrow> 'a run" where
  "look f = (\<lambda>s. (f s, s))"

definition alloc :: "obj \<Rightarrow> val run" where
  "alloc ob = (\<lambda>s. (Inr (VRef (length s)), s @ [ob]))"

definition overwrite :: "nat \<Rightarrow> obj \<Rightarrow> unit run" where
  "overwrite a ob = (\<lambda>s. (Inr (), s[a := ob]))"

definition load :: "store \<Rightarrow> val \<Rightarrow> obj option" where
  "load s v = (case v of VRef a \<Rightarrow> (if a < length s then Some (s ! a) else None) | _ \<Rightarrow> None)"

subsection \<open>Python operations on a value\<close>

definition val_hashable :: "val \<Rightarrow> bool" where
  "val_hashable v = (case v of VRef _ \<Rightarrow> False | _ \<Rightarrow> True)"

fun val_key_eq :: "val \<Rightarrow> val \<Rightarrow> bool" where
  "val_key_eq (VBool b) (VInt i) = ((if b then 1 else 0) = i)"
| "val_key_eq (VInt i) (VBool b) = (i = (if b then 1 else 0))"
| "val_key_eq x y = (x = y)"

fun obj_lookup :: "(val \<times> val) list \<Rightarrow> val \<Rightarrow> val option" where
  "obj_lookup [] k = None"
| "obj_lookup ((k', v') # d) k = (if val_key_eq k' k then Some v' else obj_lookup d k)"

fun obj_set :: "(val \<times> val) list \<Rightarrow> val \<Rightarrow> val \<Rightarrow> (val \<times> val) list" where
  "obj_set [] k v = [(k, v)]"
| "obj_set ((k', v') # d) k v =
     (if val_key_eq k' k then (k', v) # d else (k', v') # obj_set d k v)"

fun obj_update :: "(val \<times> val) list \<Rightarrow> (val \<times> val) list \<Rightarrow> (val \<times> val) list" where
  "obj_update d [] = d"
| "obj_update d ((k, v) # other) = obj_update (obj_set d k v) other"

definition st_getitem :: "val \<Rightarrow> string \<Rightarrow> store \<Rightarrow> error + val" where
  "st_getitem v k s =
     (case load s v of
        Some (ODict kvs) \<Rightarrow>
          (case obj_lookup kvs (VStr k) of None \<Rightarrow> Inl KeyError | Some x \<Rightarrow> Inr x)
      | _ \<Rightarrow> Inl TypeError)"

definition st_getitem0 :: "val \<Rightarrow> store \<Rightarrow> error + val" where
  "st_getitem0 v s =
     (case v of
        VStr t \<Rightarrow> (case t of [] \<Rightarrow> Inl IndexError | c # _ \<Rightarrow> Inr (VStr [c]))
      | _ \<Rightarrow>
          (case load s v of
             Some (OList xs) \<Rightarrow> (case xs of [] \<Rightarrow> Inl IndexError | x # _ \<Rightarrow> Inr x)
           | Some (ODict kvs) \<Rightarrow>
               (case obj_lookup kvs (VInt 0) of None \<Rightarrow> Inl KeyError | Some x \<Rightarrow> Inr x)
           | None \<Rightarrow> Inl TypeError))"

definition st_get :: "val \<Rightarrow> string \<Rightarrow> val \<Rightarrow> store \<Rightarrow> error + val" where
  "st_get v k dflt s =
     (case load s v of
        Some (ODict kvs) \<Rightarrow>
          (case obj_lookup kvs (VStr k) of None \<Rightarrow> Inr dflt | Some x \<Rightarrow> Inr x)
      | _ \<Rightarrow> Inl AttributeError)"

definition st_contains :: "string \<Rightarrow> val \<Rightarrow> store \<Rightarrow> error + bool" where
  "st_contains k v s =
     (case v of
        VStr t \<Rightarrow> Inr (sublist k t)
      | _ \<Rightarrow>
          (case load s v of
             Some (ODict kvs) \<Rightarrow> Inr (obj_lookup kvs (VStr k) \<noteq> None)
           | Some (OList xs) \<Rightarrow> Inr (List.member xs (VStr k))
           | None \<Rightarrow> Inl TypeError))"

definition st_items :: "val \<Rightarrow> store \<Rightarrow> error + (val \<times> val) list" where
  "st_items v s = (case load s v of Some (ODict kvs) \<Rightarrow> Inr kvs | _ \<Rightarrow> Inl AttributeError)"

definition st_keys :: "val \<Rightarrow> store \<Rightarrow> error + val list" where
  "st_keys v s =
     (case load s v of Some (ODict kvs) \<Rightarrow> Inr (map fst kvs) | _ \<Rightarrow> Inl AttributeError)"

definition st_iter :: "val \<Rightarrow> store \<Rightarrow> error + val list" where
  "st_iter v s =
     (case v of
        VStr t \<Rightarrow> Inr (map (\<lambda>c. VStr [c]) t)
      | _ \<Rightarrow>
          (case load s v of
             Some (OList xs) \<Rightarrow> Inr xs
           | Some (ODict kvs) \<Rightarrow> Inr (map fst kvs)
           | None \<Rightarrow> Inl TypeError))"

definition st_truthy :: "val \<Rightarrow> store \<Rightarrow> bool" where
  "st_truthy v s =
     (case v of
        VNone \<Rightarrow> False
      | VBool b \<Rightarrow> b
      | VInt i \<Rightarrow> i \<noteq> 0
      | VStr t \<Rightarrow> t \<noteq> []
      | VRef a \<Rightarrow>
          (case load s v of
             Some (OList xs) \<Rightarrow> xs \<noteq> []
           | Some (ODict kvs) \<Rightarrow> kvs \<noteq> []
           | None \<Rightarrow> True))"

text \<open>The three kinds of in-place update the converter uses: \<^verbatim>\<open>target[k] = v\<close>,
  \<^verbatim>\<open>target.append(v)\<close> and \<^verbatim>\<open>target.extend(it)\<close>, and \<^verbatim>\<open>target.update(other)\<close> with a dict
  \<open>other\<close> (the converter passes the dict \<^verbatim>\<open>extract_properties\<close> has built).\<close>

definition st_setitem :: "val \<Rightarrow> val \<Rightarrow> val \<Rightarrow> unit run" where
  "st_setitem target k v =
     (\<lambda>s. case target of
             VRef a \<Rightarrow>
               (case load s target of
                  Some (ODict kvs) \<Rightarrow>
                    if val_hashable k then overwrite a (ODict (obj_set kvs k v)) s
                    else (Inl TypeError, s)
                | _ \<Rightarrow> (Inl TypeError, s))
           | _ \<Rightarrow> (Inl TypeError, s))"

definition st_append :: "val \<Rightarrow> val \<Rightarrow> unit run" where
  "st_append target v =
     (\<lambda>s. case target of
             VRef a \<Rightarrow>
               (case load s target of
                  Some (OList xs) \<Rightarrow> overwrite a (OList (xs @ [v])) s
                | _ \<Rightarrow> (Inl AttributeError, s))
           | _ \<Rightarrow> (Inl AttributeError, s))"

definition st_extend :: "val \<Rightarrow> val \<Rightarrow> unit run" where
  "st_extend target it =
     (\<lambda>s. case target of
             VRef a \<Rightarrow>
               (case load s target of
                  Some (OList xs) \<Rightarrow>
                    (case st_iter it s of
                       Inl e \<Rightarrow> (Inl e, s)
                     | Inr ys \<Rightarrow> overwrite a (OList (xs @ ys)) s)
                | _ \<Rightarrow> (Inl AttributeError, s))
           | _ \<Rightarrow> (Inl AttributeError, s))"

definition st_update :: "val \<Rightarrow> val \<Rightarrow> unit run" where
  "st_update target other =
     (\<lambda>s. case target of
             VRef a \<Rightarrow>
               (case load s target of
                  Some (ODict kvs) \<Rightarrow>
                    (case load s other of
                       Some (ODict ws) \<Rightarrow> overwrite a (ODict (obj_update kvs ws)) s
                     | _ \<Rightarrow> (Inl TypeError, s))
                | _ \<Rightarrow> (Inl AttributeError, s))
           | _ \<Rightarrow> (Inl AttributeError, s))"

text \<open>The text of a value. \<^verbatim>\<open>repr\<close> prints an object that contains itself as
  \<^verbatim>\<open>[...]\<close> or \<^verbatim>\<open>{...}\<close> where it comes up again; \<open>seen\<close> holds the addresses on the way
  down.\<close>

function st_repr :: "store \<Rightarrow> nat list \<Rightarrow> val \<Rightarrow> string" where
  "st_repr s seen v =
     (case v of
        VNone \<Rightarrow> ''None''
      | VBool b \<Rightarrow> (if b then ''True'' else ''False'')
      | VInt i \<Rightarrow> int_str i
      | VStr t \<Rightarrow> repr_str t
      | VRef a \<Rightarrow>
          if a < length s then
            (if a \<notin> set seen then
               (case s ! a of
                  OList xs \<Rightarrow> ''['' @ join '', '' (map (st_repr s (a # seen)) xs) @ '']''
                | ODict kvs \<Rightarrow>
                    ''{'' @ join '', ''
                      (map (\<lambda>kv. st_repr s (a # seen) (fst kv) @ '': '' @
                                 st_repr s (a # seen) (snd kv)) kvs) @ ''}'')
             else (case s ! a of OList _ \<Rightarrow> ''[...]'' | ODict _ \<Rightarrow> ''{...}''))
          else [])"
  by pat_completeness auto
termination
proof -
  have less: "card ({..<length s} - set seen) - Suc 0 < card ({..<length s} - set seen)"
    if "a < length s" and "a \<notin> set seen" for s :: store and a seen
  proof -
    from that have "a \<in> {..<length s} - set seen" by simp
    then have "0 < card ({..<length s} - set seen)" by (auto simp: card_gt_0_iff)
    then show ?thesis by simp
  qed
  show ?thesis
    by (relation "measure (\<lambda>(s, seen, v). card ({..<length s} - set seen))")
      (simp_all add: less)
qed

definition st_str :: "val \<Rightarrow> store \<Rightarrow> string" where
  "st_str v s = (case v of VStr t \<Rightarrow> t | _ \<Rightarrow> st_repr s [] v)"

fun val_strings :: "val list \<Rightarrow> error + string list" where
  "val_strings [] = Inr []"
| "val_strings (v # vs) =
     (case v of
        VStr t \<Rightarrow> (case val_strings vs of Inl e \<Rightarrow> Inl e | Inr ts \<Rightarrow> Inr (t # ts))
      | _ \<Rightarrow> Inl TypeError)"

declare st_repr.simps [simp del]

subsection \<open>The resolver and the flattener on the store\<close>

fun st_traverse :: "val \<Rightarrow> string list \<Rightarrow> store \<Rightarrow> error + val" where
  "st_traverse result [] s = Inr result"
| "st_traverse result (key # keys) s =
     (case st_getitem result key s of
        Inl e \<Rightarrow> Inl e
      | Inr r \<Rightarrow> st_traverse r keys s)"

definition st_resolve_ref :: "val \<Rightarrow> val \<Rightarrow> store \<Rightarrow> error + val" where
  "st_resolve_ref ref spec s =
     (case ref of
        VStr t \<Rightarrow> st_traverse spec (py_split CHR ''/'' (lstrip ''#/'' t)) s
      | _ \<Rightarrow> Inl AttributeError)"

definition st_deref :: "val \<Rightarrow> val \<Rightarrow> val run" where
  "st_deref spec x =
     bnd (look (st_contains ''$ref'' x)) (\<lambda>has_ref.
       if has_ref then
         bnd (look (st_getitem x ''$ref'')) (\<lambda>r. look (st_resolve_ref r spec))
       else ret x)"

text \<open>Lines 36 to 42: the descriptor is a new dict, stored in the dict \<open>properties\<close>.\<close>

fun st_extract_loop :: "val \<Rightarrow> val \<Rightarrow> (val \<times> val) list \<Rightarrow> unit run" where
  "st_extract_loop spec properties [] = ret ()"
| "st_extract_loop spec properties ((prop_name, prop_details0) # rest) =
     bnd (st_deref spec prop_details0) (\<lambda>prop_details.
     bnd (look (st_get prop_details ''type'' (VStr ''object''))) (\<lambda>prop_type.
     bnd (look (st_get prop_details ''description'' (VStr []))) (\<lambda>descr.
     bnd (alloc (ODict [(VStr ''type'', prop_type), (VStr ''description'', descr)])) (\<lambda>d.
     bnd (st_setitem properties prop_name d) (\<lambda>_.
     st_extract_loop spec properties rest)))))"

text \<open>\<^verbatim>\<open>extract_properties\<close>: \<open>properties\<close> and the first \<open>required\<close> are new objects
  (lines 22 and 23), and so are the defaults \<^verbatim>\<open>{}\<close> and \<^verbatim>\<open>[]\<close> of lines 31 and 33. The
  \<open>required\<close> it returns is the list of the schema itself when the schema has one.\<close>

definition st_extract_properties :: "val \<Rightarrow> val \<Rightarrow> (val \<times> val) run" where
  "st_extract_properties schema0 spec =
     bnd (alloc (ODict [])) (\<lambda>properties.
     bnd (alloc (OList [])) (\<lambda>required0.
     bnd (st_deref spec schema0) (\<lambda>schema.
     bnd (look (st_contains ''properties'' schema)) (\<lambda>has_props.
     bnd (if has_props then look (st_getitem schema ''properties'') else alloc (ODict []))
       (\<lambda>props.
     bnd (alloc (OList [])) (\<lambda>no_required.
     bnd (look (st_get schema ''required'' no_required)) (\<lambda>required.
     bnd (look (st_items props)) (\<lambda>items.
     bnd (st_extract_loop spec properties items) (\<lambda>_.
     ret (properties, required))))))))))"

subsection \<open>The function descriptor on the store\<close>

text \<open>The four updates of lines 76, 78, 91 and 92. Each finds its target by indexing
  the dict \<open>function\<close> twice.\<close>

definition st_set_property :: "val \<Rightarrow> val \<Rightarrow> val \<Rightarrow> unit run" where
  "st_set_property function k v =
     bnd (look (st_getitem function ''parameters'')) (\<lambda>ps.
     bnd (look (st_getitem ps ''properties'')) (\<lambda>target.
     st_setitem target k v))"

definition st_append_required :: "val \<Rightarrow> val \<Rightarrow> unit run" where
  "st_append_required function n =
     bnd (look (st_getitem function ''parameters'')) (\<lambda>ps.
     bnd (look (st_getitem ps ''required'')) (\<lambda>target.
     st_append target n))"

definition st_update_properties :: "val \<Rightarrow> val \<Rightarrow> unit run" where
  "st_update_properties function properties =
     bnd (look (st_getitem function ''parameters'')) (\<lambda>ps.
     bnd (look (st_getitem ps ''properties'')) (\<lambda>target.
     st_update target properties))"

definition st_extend_required :: "val \<Rightarrow> val \<Rightarrow> unit run" where
  "st_extend_required function required =
     bnd (look (st_getitem function ''parameters'')) (\<lambda>ps.
     bnd (look (st_getitem ps ''required'')) (\<lambda>target.
     st_extend target required))"

text \<open>Lines 65 to 75 read the parameter and build its descriptor; nothing existing is
  written.\<close>

definition st_param_details :: "val \<Rightarrow> val \<Rightarrow> (val \<times> val \<times> val) run" where
  "st_param_details spec param0 =
     bnd (st_deref spec param0) (\<lambda>param.
     bnd (look (st_getitem param ''name'')) (\<lambda>param_name.
     bnd (alloc (ODict [])) (\<lambda>no_schema.
     bnd (look (st_get param ''schema'' no_schema)) (\<lambda>param_schema0.
     bnd (st_deref spec param_schema0) (\<lambda>param_schema.
     bnd (look (st_get param_schema ''type'' (VStr ''string''))) (\<lambda>param_type.
     bnd (look (st_get param ''description'' (VStr []))) (\<lambda>descr.
     bnd (alloc (ODict [(VStr ''type'', param_type), (VStr ''description'', descr)]))
       (\<lambda>param_details.
     ret (param, param_name, param_details)))))))))"

definition st_handle_param :: "val \<Rightarrow> val \<Rightarrow> val \<Rightarrow> unit run" where
  "st_handle_param spec function param0 =
     bnd (st_param_details spec param0) (\<lambda>(param, param_name, param_details).
     bnd (st_set_property function param_name param_details) (\<lambda>_.
     bnd (look (st_get param ''required'' (VBool False))) (\<lambda>req.
     bnd (look (\<lambda>s. Inr (st_truthy req s))) (\<lambda>is_required.
       if is_required then st_append_required function param_name else ret ()))))"

fun st_params_loop :: "val \<Rightarrow> val \<Rightarrow> val list \<Rightarrow> unit run" where
  "st_params_loop spec function [] = ret ()"
| "st_params_loop spec function (param # rest) =
     bnd (st_handle_param spec function param) (\<lambda>_. st_params_loop spec function rest)"

definition st_handle_content :: "val \<Rightarrow> val \<Rightarrow> val \<Rightarrow> unit run" where
  "st_handle_content spec function schema_obj =
     bnd (look (st_getitem schema_obj ''schema'')) (\<lambda>schema0.
     bnd (st_deref spec schema0) (\<lambda>schema.
     bnd (st_extract_properties schema spec) (\<lambda>(properties, required).
     bnd (st_update_properties function properties) (\<lambda>_.
     st_extend_required function required))))"

fun st_content_loop :: "val \<Rightarrow> val \<Rightarrow> (val \<times> val) list \<Rightarrow> unit run" where
  "st_content_loop spec function [] = ret ()"
| "st_content_loop spec function ((content_type, schema_obj) # rest) =
     bnd (st_handle_content spec function schema_obj) (\<lambda>_.
     st_content_loop spec function rest)"

definition st_handle_parameters :: "val \<Rightarrow> val \<Rightarrow> val \<Rightarrow> unit run" where
  "st_handle_parameters spec details function =
     bnd (look (st_contains ''parameters'' details)) (\<lambda>has_parameters.
       if has_parameters then
         bnd (look (st_getitem details ''parameters'')) (\<lambda>ps.
         bnd (look (st_iter ps)) (\<lambda>params.
         st_params_loop spec function params))
       else ret ())"

definition st_handle_request_body :: "val \<Rightarrow> val \<Rightarrow> val \<Rightarrow> unit run" where
  "st_handle_request_body spec details function =
     bnd (look (st_contains ''requestBody'' details)) (\<lambda>has_body.
       if has_body then
         bnd (look (st_getitem details ''requestBody'')) (\<lambda>request_body0.
         bnd (st_deref spec request_body0) (\<lambda>request_body.
         bnd (look (st_getitem request_body ''content'')) (\<lambda>content.
         bnd (look (st_items content)) (\<lambda>items.
         st_content_loop spec function items))))
       else ret ())"

text \<open>Lines 52 to 60 build four new objects, innermost first: the dict of properties, the
  list of required names, the dict \<open>parameters\<close>, the dict \<open>function\<close>.\<close>

definition st_new_function :: "val \<Rightarrow> val \<Rightarrow> val run" where
  "st_new_function operation_id summary =
     bnd (alloc (ODict [])) (\<lambda>properties.
     bnd (alloc (OList [])) (\<lambda>required.
     bnd (alloc (ODict [(VStr ''type'', VStr ''object''), (VStr ''properties'', properties),
                        (VStr ''required'', required)])) (\<lambda>parameters.
     alloc (ODict [(VStr ''name'', operation_id), (VStr ''description'', summary),
                   (VStr ''parameters'', parameters)]))))"

definition st_build_function :: "val \<Rightarrow> val \<Rightarrow> val run" where
  "st_build_function spec details =
     bnd (look (st_getitem details ''operationId'')) (\<lambda>operation_id.
     bnd (look (st_get details ''summary'' (VStr []))) (\<lambda>summary.
     bnd (st_new_function operation_id summary) (\<lambda>function.
     bnd (st_handle_parameters spec details function) (\<lambda>_.
     bnd (st_handle_request_body spec details function) (\<lambda>_.
     ret function)))))"

subsection \<open>The stub on the store\<close>

fun st_params_in :: "string \<Rightarrow> val list \<Rightarrow> store \<Rightarrow> error + val list" where
  "st_params_in loc [] s = Inr []"
| "st_params_in loc (param # rest) s =
     (case st_get param ''in'' VNone s of
        Inl e \<Rightarrow> Inl e
      | Inr l \<Rightarrow>
          if l = VStr loc then
            (case st_getitem param ''name'' s of
               Inl e \<Rightarrow> Inl e
             | Inr n \<Rightarrow>
            (case st_params_in loc rest s of
               Inl e \<Rightarrow> Inl e
             | Inr ns \<Rightarrow> Inr (n # ns)))
          else st_params_in loc rest s)"

definition st_raw_params :: "string \<Rightarrow> val \<Rightarrow> val list run" where
  "st_raw_params loc details =
     bnd (alloc (OList [])) (\<lambda>no_params.
     bnd (look (st_get details ''parameters'' no_params)) (\<lambda>ps.
     bnd (look (st_iter ps)) (\<lambda>params.
     look (st_params_in loc params))))"

definition st_request_body_params :: "val \<Rightarrow> val run" where
  "st_request_body_params details =
     bnd (alloc (ODict [])) (\<lambda>d1.
     bnd (look (st_get details ''requestBody'' d1)) (\<lambda>request_body.
     bnd (alloc (ODict [])) (\<lambda>d2.
     bnd (look (st_get request_body ''content'' d2)) (\<lambda>content.
     bnd (alloc (ODict [])) (\<lambda>d3.
     bnd (look (st_get content ''application/json'' d3)) (\<lambda>media.
     bnd (alloc (ODict [])) (\<lambda>d4.
     bnd (look (st_get media ''schema'' d4)) (\<lambda>schema.
     bnd (alloc (ODict [])) (\<lambda>d5.
     look (st_get schema ''properties'' d5))))))))))"

definition st_build_stub :: "val \<Rightarrow> val \<Rightarrow> val \<Rightarrow> string run" where
  "st_build_stub spec path details =
     bnd (look (st_getitem details ''operationId'')) (\<lambda>func_name.
     bnd (st_raw_params ''path'' details) (\<lambda>path_params.
     bnd (st_raw_params ''query'' details) (\<lambda>query_params.
     bnd (st_request_body_params details) (\<lambda>body.
     bnd (look (st_keys body)) (\<lambda>body_keys.
     bnd (look (\<lambda>s. val_strings path_params)) (\<lambda>path_names.
     bnd (look (\<lambda>s. val_strings query_params)) (\<lambda>query_names.
     bnd (look (\<lambda>s. val_strings body_keys)) (\<lambda>body_names.
     bnd (look (st_getitem spec ''servers'')) (\<lambda>servers.
     bnd (look (st_getitem0 servers)) (\<lambda>server.
     bnd (look (st_getitem server ''url'')) (\<lambda>url.
     look (\<lambda>s. Inr (stub_text (st_str func_name s) path_names query_names body_names
                       (st_str url s) (st_str path s))))))))))))))"

subsection \<open>The two loops on the store\<close>

definition st_transform_operation :: "val \<Rightarrow> val \<Rightarrow> val \<Rightarrow> (val \<times> string) run" where
  "st_transform_operation spec path details =
     bnd (st_build_function spec details) (\<lambda>function.
     bnd (st_build_stub spec path details) (\<lambda>function_code.
     ret (function, function_code)))"

fun st_methods_loop :: "val \<Rightarrow> val \<Rightarrow> val \<Rightarrow> val \<Rightarrow> (val \<times> val) list \<Rightarrow> unit run" where
  "st_methods_loop spec openai_functions openai_function_codes path [] = ret ()"
| "st_methods_loop spec openai_functions openai_function_codes path ((method, details) # rest) =
     bnd (st_transform_operation spec path details) (\<lambda>(function, function_code).
     bnd (st_append openai_function_codes (VStr function_code)) (\<lambda>_.
     bnd (st_append openai_functions function) (\<lambda>_.
     st_methods_loop spec openai_functions openai_function_codes path rest)))"

fun st_paths_loop :: "val \<Rightarrow> val \<Rightarrow> val \<Rightarrow> (val \<times> val) list \<Rightarrow> unit run" where
  "st_paths_loop spec openai_functions openai_function_codes [] = ret ()"
| "st_paths_loop spec openai_functions openai_function_codes ((path, methods) # rest) =
     bnd (look (st_items methods)) (\<lambda>ms.
     bnd (st_methods_loop spec openai_functions openai_function_codes path ms) (\<lambda>_.
     st_paths_loop spec openai_functions openai_function_codes rest))"

text \<open>\<^verbatim>\<open>transform_to_openai_format\<close>: the two output lists are new objects (lines 47 and
  48); the result is the pair of their references.\<close>

definition st_transform_to_openai_format :: "val \<Rightarrow> (val \<times> val) run" where
  "st_transform_to_openai_format openapi_spec =
     bnd (alloc (OList [])) (\<lambda>openai_functions.
     bnd (alloc (OList [])) (\<lambda>openai_function_codes.
     bnd (look (st_getitem openapi_spec ''paths'')) (\<lambda>paths.
     bnd (look (st_items paths)) (\<lambda>items.
     bnd (st_paths_loop openapi_spec openai_functions openai_function_codes items) (\<lambda>_.
     ret (openai_functions, openai_function_codes))))))"

text \<open>No object of the store \<open>s\<close> outside the addresses \<open>W\<close> differs after the run \<open>m\<close>,
  and no address is lost.\<close>

definition touches :: "nat set \<Rightarrow> 'a run \<Rightarrow> store \<Rightarrow> bool" where
  "touches W m s \<longleftrightarrow>
     length s \<le> length (snd (m s)) \<and>
     (\<forall>a<length s. a \<notin> W \<longrightarrow> snd (m s) ! a = s ! a)"

text \<open>The target of the four updates: \<open>function\<close> is a dict whose \<open>parameters\<close> entry is a
  dict whose \<open>properties\<close> and \<open>required\<close> entries are the objects at \<open>q\<close> and \<open>r\<close>, and
  neither dict is one of these two objects.\<close>

definition fn_at :: "val \<Rightarrow> nat \<Rightarrow> nat \<Rightarrow> store \<Rightarrow> bool" where
  "fn_at function q r s \<longleftrightarrow>
     (\<exists>fa pa fkvs pkvs.
        function = VRef fa \<and> fa < length s \<and> s ! fa = ODict fkvs \<and>
        obj_lookup fkvs (VStr ''parameters'') = Some (VRef pa) \<and>
        pa < length s \<and> s ! pa = ODict pkvs \<and>
        obj_lookup pkvs (VStr ''properties'') = Some (VRef q) \<and>
        obj_lookup pkvs (VStr ''required'') = Some (VRef r) \<and>
        fa \<notin> {q, r} \<and> pa \<notin> {q, r})"

subsection \<open>Trees in the store\<close>

text \<open>Loading a tree puts its lists and dicts into the store, children before their
  parent, and gives the value that stands for the tree.\<close>

fun place :: "node \<Rightarrow> store \<Rightarrow> val \<times> store"
  and place_list :: "node list \<Rightarrow> store \<Rightarrow> val list \<times> store"
  and place_items :: "(string \<times> node) list \<Rightarrow> store \<Rightarrow> (val \<times> val) list \<times> store" where
  "place PNone s = (VNone, s)"
| "place (PBool b) s = (VBool b, s)"
| "place (PInt i) s = (VInt i, s)"
| "place (PStr t) s = (VStr t, s)"
| "place (PList xs) s = (case place_list xs s of (vs, s') \<Rightarrow> (VRef (length s'), s' @ [OList vs]))"
| "place (PDict kvs) s =
     (case place_items kvs s of (ws, s') \<Rightarrow> (VRef (length s'), s' @ [ODict ws]))"
| "place_list [] s = ([], s)"
| "place_list (x # xs) s =
     (case place x s of (v, s') \<Rightarrow> (case place_list xs s' of (vs, s'') \<Rightarrow> (v # vs, s'')))"
| "place_items [] s = ([], s)"
| "place_items (kx # kvs) s =
     (case place (snd kx) s of (v, s') \<Rightarrow>
        (case place_items kvs s' of (ws, s'') \<Rightarrow> ((VStr (fst kx), v) # ws, s'')))"

text \<open>Reading a value of the store back as a tree, to the given depth; the keys of its
  dicts have to be strings.\<close>

fun read_node :: "nat \<Rightarrow> store \<Rightarrow> val \<Rightarrow> node option" where
  "read_node 0 s v = None"
| "read_node (Suc n) s v =
     (case v of
        VNone \<Rightarrow> Some PNone
      | VBool b \<Rightarrow> Some (PBool b)
      | VInt i \<Rightarrow> Some (PInt i)
      | VStr t \<Rightarrow> Some (PStr t)
      | VRef a \<Rightarrow>
          if a < length s then
            (case s ! a of
               OList vs \<Rightarrow> map_option PList (those (map (read_node n s) vs))
             | ODict kvs \<Rightarrow>
                 map_option PDict
                   (those (map (\<lambda>kv. case fst kv of
                                        VStr k \<Rightarrow> map_option (Pair k) (read_node n s (snd kv))
                                      | _ \<Rightarrow> None) kvs)))
          else None)"

text \<open>A function descriptor as the tree \<^verbatim>\<open>json.dump\<close> is given, for names that are
  strings.\<close>

definition function_node :: "function_descriptor \<Rightarrow> node" where
  "function_node f =
     PDict [(''name'', fd_name f), (''description'', fd_description f),
       (''parameters'', PDict
          [(''type'', ps_type (fd_parameters f)),
           (''properties'', PDict
              (map (\<lambda>kd. (py_str (fst kd),
                           PDict [(''type'', pd_type (snd kd)),
                                  (''description'', pd_description (snd kd))]))
                 (ps_properties (fd_parameters f)))),
           (''required'', PList (ps_required (fd_parameters f)))])]"

text \<open>A document with one operation that has a referenced parameter and a request body
  with properties and required names, loaded into an empty store, and the run of the
  converter on it.\<close>

definition add_pet :: node where
  "add_pet = PDict
     [(''operationId'', PStr ''addPet''),
      (''parameters'', PList [limit_ref]),
      (''requestBody'', PDict [(''content'', PDict [(''application/json'',
         PDict [(''schema'', pet_schema)])])])]"

definition small_doc :: node where
  "small_doc = PDict
     [(''servers'', PList [PDict [(''url'', PStr ''https://api.example.com'')]]),
      (''components'', PDict [(''parameters'', PDict [(''Limit'', limit_param)])]),
      (''paths'', PDict [(''/pets'', PDict [(''post'', add_pet)])])]"

definition small_ref :: val where
  "small_ref = fst (place small_doc [])"

definition small_store :: store where
  "small_store = snd (place small_doc [])"

definition small_run :: "(error + val \<times> val) \<times> store" where
  "small_run = st_transform_to_openai_format small_ref small_store"

section \<open>Properties of the resolver\<close>

lemma py_split_nonempty: "py_split sep s \<noteq> []"
  by (induction s) (auto split: list.splits)

lemma py_split_no_sep: "sep \<notin> set w \<Longrightarrow> py_split sep w = [w]"
  by (induction w) auto

lemma py_split_append: "sep \<notin> set w \<Longrightarrow> py_split sep (w @ sep # s) = w # py_split sep s"
  by (induction w) (auto split: list.splits)

lemma py_split_join_Cons:
  "\<forall>k\<in>set (k0 # ks). sep \<notin> set k \<Longrightarrow> py_split sep (join [sep] (k0 # ks)) = k0 # ks"
proof (induction ks arbitrary: k0)
  case Nil
  then show ?case by (simp add: py_split_no_sep)
next
  case (Cons k1 ks)
  have "py_split sep (k0 @ sep # join [sep] (k1 # ks)) = k0 # py_split sep (join [sep] (k1 # ks))"
    using Cons.prems by (intro py_split_append) simp
  with Cons show ?case by simp
qed

lemma py_split_join:
  "ks \<noteq> [] \<Longrightarrow> \<forall>k\<in>set ks. sep \<notin> set k \<Longrightarrow> py_split sep (join [sep] ks) = ks"
  by (cases ks) (simp_all only: py_split_join_Cons list.simps)

lemma lstrip_prefix: "lstrip ''#/'' (''#/'' @ r) = lstrip ''#/'' r"
  by (simp add: lstrip_def)

lemma lstrip_plain: "(s = [] \<or> hd s \<notin> set chars) \<Longrightarrow> lstrip chars s = s"
  by (cases s) (auto simp: lstrip_def)

lemma resolve_ref_plain_keys:
  assumes "ks \<noteq> []" and "\<forall>k\<in>set ks. CHR ''/'' \<notin> set k"
    and "join ''/'' ks = [] \<or> hd (join ''/'' ks) \<notin> set ''#/''"
  shows "resolve_ref (PStr (''#/'' @ join ''/'' ks)) spec = traverse spec ks"
  using assms
  by (simp add: resolve_ref_def lstrip_prefix lstrip_plain py_split_join del: append.simps)



section \<open>Properties of the transformer\<close>

subsection \<open>collect\<close>

lemma collect_Inr_iff: "collect g xs = Inr ys \<longleftrightarrow> list_all2 (\<lambda>x y. g x = Inr y) xs ys"
proof (induction xs arbitrary: ys)
  case Nil
  then show ?case by auto
next
  case (Cons x xs)
  show ?case
  proof (cases "collect g xs")
    case (Inl e)
    then have "\<not> list_all2 (\<lambda>x y. g x = Inr y) xs zs" for zs
      using Cons.IH [of zs] by simp
    with Inl show ?thesis by (cases ys) (auto split: sum.splits)
  next
    case (Inr zs)
    then have "list_all2 (\<lambda>x y. g x = Inr y) xs zs' \<longleftrightarrow> zs' = zs" for zs'
      using Cons.IH [of zs'] by auto
    with Inr show ?thesis by (cases ys) (auto split: sum.splits)
  qed
qed

lemma collect_append:
  "collect g (xs @ ys) =
     (case collect g xs of
        Inl e \<Rightarrow> Inl e
      | Inr a \<Rightarrow> (case collect g ys of Inl e \<Rightarrow> Inl e | Inr b \<Rightarrow> Inr (a @ b)))"
  by (induction xs) (auto split: sum.splits)

lemma collect_map: "collect g (map h xs) = collect (\<lambda>x. g (h x)) xs"
  by (induction xs) (auto split: sum.splits)

lemma collect_fails: "x \<in> set xs \<Longrightarrow> g x = Inl e \<Longrightarrow> \<exists>e'. collect g xs = Inl e'"
  by (induction xs) (auto split: sum.splits)

lemma collect_concat:
  "collect g (concat xss) =
     (case collect (\<lambda>xs. collect g xs) xss of Inl e \<Rightarrow> Inl e | Inr yss \<Rightarrow> Inr (concat yss))"
  by (induction xss) (auto simp: collect_append split: sum.splits)

subsection \<open>The two loops as one pass over the operations\<close>

lemma methods_loop_collect:
  "methods_loop spec path (fs, cs) ms =
     (case collect (\<lambda>md. transform_operation spec path (snd md)) ms of
        Inl e \<Rightarrow> Inl e
      | Inr rs \<Rightarrow> Inr (fs @ map fst rs, cs @ map snd rs))"
  by (induction ms arbitrary: fs cs) (auto split: sum.splits)

lemma paths_loop_collect:
  "paths_loop spec (fs, cs) items =
     (case collect (\<lambda>pm. case py_items (snd pm) of
                            Inl e \<Rightarrow> Inl e
                          | Inr ms \<Rightarrow> collect (\<lambda>md. transform_operation spec (fst pm) (snd md)) ms)
             items of
        Inl e \<Rightarrow> Inl e
      | Inr rss \<Rightarrow> Inr (fs @ map fst (concat rss), cs @ map snd (concat rss)))"
proof (induction items arbitrary: fs cs)
  case Nil
  then show ?case by simp
next
  case (Cons pm items)
  obtain path methods where pm: "pm = (path, methods)" by (cases pm)
  show ?case
    by (simp add: pm methods_loop_collect Cons.IH split: sum.splits)
qed

lemma collect_path_operations:
  "collect path_operations items = Inr opss \<Longrightarrow>
   collect (\<lambda>pm. case py_items (snd pm) of
                    Inl e \<Rightarrow> Inl e
                  | Inr ms \<Rightarrow> collect (\<lambda>md. transform_operation spec (fst pm) (snd md)) ms) items
   = collect (\<lambda>ops. collect (op_result spec) ops) opss"
proof (induction items arbitrary: opss)
  case Nil
  then show ?case by auto
next
  case (Cons pm items)
  then show ?case
    by (auto simp: path_operations_def collect_map op_result_def split: sum.splits)
qed

lemma transform_as_collect:
  assumes "operations spec = Inr ops"
  shows "transform_to_openai_format spec =
     (case collect (op_result spec) ops of
        Inl e \<Rightarrow> Inl e
      | Inr rs \<Rightarrow> Inr (map fst rs, map snd rs))"
  using assms
  by (auto simp: operations_def transform_to_openai_format_def paths_loop_collect
      collect_path_operations collect_concat split: sum.splits)

lemma collect_path_operations_defined:
  "collect (\<lambda>pm. case py_items (snd pm) of
                    Inl e \<Rightarrow> Inl e
                  | Inr ms \<Rightarrow> collect (g pm) ms) items = Inr rss \<Longrightarrow>
   \<exists>opss. collect path_operations items = Inr opss"
proof (induction items arbitrary: rss)
  case Nil
  then show ?case by simp
next
  case (Cons pm items)
  then show ?case
    by (auto simp: path_operations_def split: sum.splits)
qed

lemma transform_operations_defined:
  assumes "transform_to_openai_format spec = Inr r"
  shows "\<exists>ops. operations spec = Inr ops"
  using assms collect_path_operations_defined
  by (fastforce simp: operations_def transform_to_openai_format_def paths_loop_collect
      split: sum.splits)


subsection \<open>Failures\<close>

lemma getitem_absent: "py_contains k n = Inr False \<Longrightarrow> \<exists>e. py_getitem n k = Inl e"
  by (cases n) (auto simp: py_contains_def py_getitem_def split: option.splits)

lemma no_operationId_fails:
  assumes "py_contains ''operationId'' details = Inr False"
  shows "\<exists>e. transform_operation spec path details = Inl e"
proof -
  from getitem_absent [OF assms] obtain e where "py_getitem details ''operationId'' = Inl e" ..
  then show ?thesis by (simp add: transform_operation_def build_function_def)
qed

lemma getitem_contains: "py_getitem n k = Inr v \<Longrightarrow> py_contains k n = Inr True"
  by (cases n) (auto simp: py_contains_def py_getitem_def split: option.splits)

lemma no_content_fails:
  assumes "py_getitem details ''requestBody'' = Inr rb" and "deref spec rb = Inr body"
    and "py_contains ''content'' body = Inr False"
  shows "\<exists>e. transform_operation spec path details = Inl e"
proof -
  from getitem_absent [OF assms(3)] obtain e where "py_getitem body ''content'' = Inl e" ..
  then have "handle_request_body spec details f = Inl e" for f
    using assms(1,2) getitem_contains [OF assms(1)]
    by (simp add: handle_request_body_def)
  then show ?thesis
    by (auto simp: transform_operation_def build_function_def split: sum.splits)
qed

lemma no_servers_fails:
  assumes "py_contains ''servers'' spec = Inr False"
  shows "\<exists>e. transform_operation spec path details = Inl e"
proof -
  from getitem_absent [OF assms] obtain e where "py_getitem spec ''servers'' = Inl e" ..
  then have "\<exists>e. build_stub spec path details = Inl e"
    by (auto simp: build_stub_def split: sum.splits)
  then show ?thesis
    by (auto simp: transform_operation_def split: sum.splits)
qed

lemma operation_failure_aborts:
  assumes "operations spec = Inr ops" and "op \<in> set ops"
    and "\<exists>e. transform_operation spec (fst op) (snd (snd op)) = Inl e"
  shows "\<exists>e. transform_to_openai_format spec = Inl e"
proof -
  from assms(3) obtain e where "op_result spec op = Inl e" by (auto simp: op_result_def)
  with assms(2) obtain e' where "collect (op_result spec) ops = Inl e'"
    using collect_fails [of op ops "op_result spec" e] by blast
  then show ?thesis by (simp add: transform_as_collect [OF assms(1)])
qed

subsection \<open>Emitted dicts\<close>

lemma key_eq_refl [simp]: "key_eq x x"
  by (cases x) auto

lemma key_eq_sym: "key_eq x y \<Longrightarrow> key_eq y x"
  by (cases x; cases y) (auto split: if_splits)

lemma key_eq_trans: "key_eq x y \<Longrightarrow> key_eq y z \<Longrightarrow> key_eq x z"
  by (cases x; cases y; cases z) (auto split: if_splits)

lemma key_eq_cong: "key_eq x y \<Longrightarrow> key_eq x z = key_eq y z"
  using key_eq_sym key_eq_trans by blast

lemma key_eq_PStr [simp]: "key_eq (PStr a) n \<longleftrightarrow> n = PStr a" "key_eq n (PStr a) \<longleftrightarrow> n = PStr a"
  by (cases n; auto)+

lemma dict_lookup_dict_set:
  "dict_lookup (dict_set d k v) n = (if key_eq k n then Some v else dict_lookup d n)"
proof (induction d)
  case Nil
  then show ?case by simp
next
  case (Cons kv d)
  obtain k' v' where kv: "kv = (k', v')" by (cases kv)
  show ?case
    using Cons.IH key_eq_cong [of k' k n] key_eq_trans [of k' n k] key_eq_sym [of k n]
    by (auto simp: kv)
qed

lemma dict_lookup_append:
  "dict_lookup (xs @ ys) n =
     (case dict_lookup xs n of None \<Rightarrow> dict_lookup ys n | Some v \<Rightarrow> Some v)"
  by (induction xs) auto

lemma dict_update_append: "dict_update d (xs @ ys) = dict_update (dict_update d xs) ys"
  by (induction xs arbitrary: d) auto

lemma dict_lookup_dict_update:
  "dict_lookup (dict_update d ws) n =
     (case dict_lookup (rev ws) n of None \<Rightarrow> dict_lookup d n | Some v \<Rightarrow> Some v)"
proof (induction ws arbitrary: d)
  case Nil
  then show ?case by simp
next
  case (Cons w ws)
  obtain k v where w: "w = (k, v)" by (cases w)
  show ?case
    by (simp add: w Cons.IH dict_lookup_append dict_lookup_dict_set split: option.splits)
qed

lemma dict_lookup_written:
  "(k, v) \<in> set ws \<Longrightarrow> key_eq k n \<Longrightarrow> dict_lookup ws n \<noteq> None"
  by (induction ws) auto

lemma getitem_is_dict: "py_getitem n k = Inr v \<Longrightarrow> \<exists>kvs. n = PDict kvs"
  by (cases n) (auto simp: py_getitem_def)

lemma get_dict: "\<exists>w. py_get (PDict kvs) k d = Inr w"
  by (auto simp: py_get_def split: option.splits)

lemma handle_param_entry:
  "handle_param spec f p =
     (case param_entry spec p of
        Inl e \<Rightarrow> Inl e
      | Inr en \<Rightarrow>
          Inr (if snd (snd en)
               then append_required (set_property f (fst en) (fst (snd en))) (fst en)
               else set_property f (fst en) (fst (snd en))))"
proof (cases "deref spec p")
  case (Inl e)
  then show ?thesis by (simp add: handle_param_def param_entry_def)
next
  case (Inr param)
  show ?thesis
  proof (cases "py_getitem param ''name''")
    case (Inl e)
    with Inr show ?thesis by (simp add: handle_param_def param_entry_def)
  next
    case name: (Inr param_name)
    from getitem_is_dict [OF name] obtain kvs where "param = PDict kvs" ..
    with get_dict obtain req where "py_get param ''required'' (PBool False) = Inr req"
      by blast
    with Inr name show ?thesis
      by (simp add: handle_param_def param_entry_def Let_def split: sum.splits)
  qed
qed

lemma params_loop_entries:
  "params_loop spec f params = Inr f' \<Longrightarrow>
   \<exists>entries. collect (param_entry spec) params = Inr entries \<and>
     ps_properties (fd_parameters f') =
       dict_update (ps_properties (fd_parameters f)) (map (\<lambda>en. (fst en, fst (snd en))) entries) \<and>
     ps_required (fd_parameters f') =
       ps_required (fd_parameters f) @ map fst (filter (\<lambda>en. snd (snd en)) entries)"
proof (induction params arbitrary: f)
  case Nil
  then show ?case by simp
next
  case (Cons p params)
  from Cons.prems obtain en where en: "param_entry spec p = Inr en"
    by (auto simp: handle_param_entry split: sum.splits)
  define f1 where "f1 = (if snd (snd en)
               then append_required (set_property f (fst en) (fst (snd en))) (fst en)
               else set_property f (fst en) (fst (snd en)))"
  from Cons.prems en have "params_loop spec f1 params = Inr f'"
    by (simp add: handle_param_entry f1_def)
  from Cons.IH [OF this] obtain entries where
    c: "collect (param_entry spec) params = Inr entries"
    and p: "ps_properties (fd_parameters f') =
       dict_update (ps_properties (fd_parameters f1)) (map (\<lambda>en. (fst en, fst (snd en))) entries)"
    and r: "ps_required (fd_parameters f') =
       ps_required (fd_parameters f1) @ map fst (filter (\<lambda>en. snd (snd en)) entries)"
    by blast
  have "collect (param_entry spec) (p # params) = Inr (en # entries)"
    by (simp add: en c)
  moreover have "ps_properties (fd_parameters f1) =
      dict_set (ps_properties (fd_parameters f)) (fst en) (fst (snd en))"
    by (simp add: f1_def set_property_def append_required_def)
  moreover have "ps_required (fd_parameters f1) =
      ps_required (fd_parameters f) @ (if snd (snd en) then [fst en] else [])"
    by (simp add: f1_def set_property_def append_required_def)
  ultimately show ?case
    using p r by (intro exI [of _ "en # entries"]) simp
qed

lemma handle_content_entry:
  "handle_content spec f schema_obj =
     (case content_entry spec schema_obj of
        Inl e \<Rightarrow> Inl e
      | Inr c \<Rightarrow> Inr (extend_required (update_properties f (fst c)) (snd c)))"
  by (simp add: handle_content_def content_entry_def split: sum.splits prod.splits)

lemma content_loop_entries:
  "content_loop spec f items = Inr f' \<Longrightarrow>
   \<exists>contents. collect (\<lambda>item. content_entry spec (snd item)) items = Inr contents \<and>
     ps_properties (fd_parameters f') =
       dict_update (ps_properties (fd_parameters f)) (concat (map fst contents)) \<and>
     ps_required (fd_parameters f') =
       ps_required (fd_parameters f) @ concat (map snd contents)"
proof (induction items arbitrary: f)
  case Nil
  then show ?case by simp
next
  case (Cons item items)
  obtain content_type schema_obj where item: "item = (content_type, schema_obj)" by (cases item)
  from Cons.prems obtain c where c: "content_entry spec schema_obj = Inr c"
    by (auto simp: item handle_content_entry split: sum.splits)
  define f1 where "f1 = extend_required (update_properties f (fst c)) (snd c)"
  from Cons.prems c have "content_loop spec f1 items = Inr f'"
    by (simp add: item handle_content_entry f1_def)
  from Cons.IH [OF this] obtain contents where
    cs: "collect (\<lambda>item. content_entry spec (snd item)) items = Inr contents"
    and p: "ps_properties (fd_parameters f') =
       dict_update (ps_properties (fd_parameters f1)) (concat (map fst contents))"
    and r: "ps_required (fd_parameters f') =
       ps_required (fd_parameters f1) @ concat (map snd contents)"
    by blast
  have "collect (\<lambda>item. content_entry spec (snd item)) (item # items) = Inr (c # contents)"
    by (simp add: item c cs)
  moreover have "ps_properties (fd_parameters f1) =
      dict_update (ps_properties (fd_parameters f)) (fst c)"
    by (simp add: f1_def update_properties_def extend_required_def)
  moreover have "ps_required (fd_parameters f1) = ps_required (fd_parameters f) @ snd c"
    by (simp add: f1_def update_properties_def extend_required_def)
  ultimately show ?case
    using p r by (intro exI [of _ "c # contents"]) (simp add: dict_update_append)
qed

lemma handle_parameters_params:
  "handle_parameters spec (PDict kvs) f =
     (case operation_params (PDict kvs) of
        Inl e \<Rightarrow> Inl e
      | Inr params \<Rightarrow> params_loop spec f params)"
  by (auto simp: handle_parameters_def operation_params_def py_contains_def py_getitem_def
      py_get_def py_iter_def split: option.splits sum.splits)

lemma handle_request_body_contents:
  "handle_request_body spec details f =
     (case operation_contents spec details of
        Inl e \<Rightarrow> Inl e
      | Inr items \<Rightarrow> content_loop spec f items)"
  by (auto simp: handle_request_body_def operation_contents_def split: sum.splits)

lemma build_function_writes:
  assumes "build_function spec details = Inr f"
  shows "\<exists>ws. property_writes spec details = Inr ws \<and>
           ps_properties (fd_parameters f) = dict_update [] ws \<and>
           required_names spec details = Inr (ps_required (fd_parameters f))"
proof -
  from assms obtain operation_id where "py_getitem details ''operationId'' = Inr operation_id"
    by (auto simp: build_function_def split: sum.splits)
  from getitem_is_dict [OF this] obtain kvs where d: "details = PDict kvs" ..
  define f0 where "f0 = \<lparr>fd_name = operation_id,
      fd_description = (case map_of kvs ''summary'' of None \<Rightarrow> PStr [] | Some v \<Rightarrow> v),
      fd_parameters = \<lparr>ps_type = PStr ''object'', ps_properties = [], ps_required = []\<rparr>\<rparr>"
  from assms obtain f1 where f1: "handle_parameters spec details f0 = Inr f1"
    and f: "handle_request_body spec details f1 = Inr f"
    using \<open>py_getitem details ''operationId'' = Inr operation_id\<close>
    by (auto simp: build_function_def d py_get_def f0_def split: sum.splits option.splits)
  from f1 obtain params where params: "operation_params details = Inr params"
    and l1: "params_loop spec f0 params = Inr f1"
    by (auto simp: d handle_parameters_params split: sum.splits)
  from f obtain items where items: "operation_contents spec details = Inr items"
    and l2: "content_loop spec f1 items = Inr f"
    by (auto simp: handle_request_body_contents split: sum.splits)
  from params_loop_entries [OF l1] obtain entries where
    e: "collect (param_entry spec) params = Inr entries"
    and p1: "ps_properties (fd_parameters f1) =
       dict_update [] (map (\<lambda>en. (fst en, fst (snd en))) entries)"
    and r1: "ps_required (fd_parameters f1) = map fst (filter (\<lambda>en. snd (snd en)) entries)"
    by (auto simp: f0_def)
  from content_loop_entries [OF l2] obtain contents where
    c: "collect (\<lambda>item. content_entry spec (snd item)) items = Inr contents"
    and p2: "ps_properties (fd_parameters f) =
       dict_update (ps_properties (fd_parameters f1)) (concat (map fst contents))"
    and r2: "ps_required (fd_parameters f) =
       ps_required (fd_parameters f1) @ concat (map snd contents)"
    by blast
  show ?thesis
    by (simp add: property_writes_def required_names_def params e items c p1 p2 r1 r2
        dict_update_append)
qed

subsection \<open>Defaults\<close>

lemma get_absent: "py_contains k n = Inr False \<Longrightarrow> py_get n k d = Inr v \<Longrightarrow> v = d"
  by (cases n) (auto simp: py_contains_def py_get_def split: option.splits)

lemma extract_loop_writes:
  "extract_loop spec acc items = Inr res \<Longrightarrow>
   \<exists>descs. collect (\<lambda>item. property_of spec (snd item)) items = Inr descs \<and>
     res = dict_update acc (map (\<lambda>p. (PStr (fst (fst p)), snd p)) (zip items descs))"
proof (induction items arbitrary: acc)
  case Nil
  then show ?case by simp
next
  case (Cons item items)
  obtain k d where item: "item = (k, d)" by (cases item)
  from Cons.prems(1) obtain desc where desc: "property_of spec d = Inr desc"
    and rest: "extract_loop spec (dict_set acc (PStr k) desc) items = Inr res"
    by (auto simp: item split: sum.splits)
  from Cons.IH [OF rest] obtain descs where
    "collect (\<lambda>item. property_of spec (snd item)) items = Inr descs"
    "res = dict_update (dict_set acc (PStr k) desc)
       (map (\<lambda>p. (PStr (fst (fst p)), snd p)) (zip items descs))"
    by blast
  then show ?case
    by (intro exI [of _ "desc # descs"]) (simp add: item desc)
qed

lemma dict_lookup_map_of:
  "\<forall>kv\<in>set ws. \<exists>s. fst kv = PStr s \<Longrightarrow> dict_lookup ws (PStr k) = map_of ws (PStr k)"
  by (induction ws) auto

lemma extract_loop_lookup:
  assumes "extract_loop spec acc items = Inr res" and "distinct (map fst items)"
    and "(name, d0) \<in> set items"
  shows "\<exists>desc. property_of spec d0 = Inr desc \<and> dict_lookup res (PStr name) = Some desc"
proof -
  from extract_loop_writes [OF assms(1)] obtain descs where
    c: "collect (\<lambda>item. property_of spec (snd item)) items = Inr descs"
    and res: "res = dict_update acc (map (\<lambda>p. (PStr (fst (fst p)), snd p)) (zip items descs))"
    by blast
  define ws where "ws = map (\<lambda>p. (PStr (fst (fst p)), snd p)) (zip items descs)"
  from c have all: "list_all2 (\<lambda>item desc. property_of spec (snd item) = Inr desc) items descs"
    by (simp add: collect_Inr_iff)
  then have len: "length descs = length items" by (simp add: list_all2_lengthD)
  from assms(3) obtain i where i: "i < length items" "items ! i = (name, d0)"
    by (auto simp: in_set_conv_nth)
  from all i have desc: "property_of spec d0 = Inr (descs ! i)"
    by (auto dest: list_all2_nthD)
  have keys: "map fst ws = map (\<lambda>item. PStr (fst item)) items"
    using len by (auto simp: ws_def intro!: nth_equalityI)
  have "distinct (map fst ws)"
    unfolding keys using assms(2) by (simp add: distinct_map inj_on_def)
  then have d: "distinct (map fst (rev ws))" by (simp add: rev_map [symmetric])
  have "((name, d0), descs ! i) \<in> set (zip items descs)"
    using i len by (auto simp: in_set_zip intro!: exI [of _ i])
  then have "(PStr name, descs ! i) \<in> set (rev ws)"
    by (force simp: ws_def)
  with d have "map_of (rev ws) (PStr name) = Some (descs ! i)" by simp
  moreover have "\<forall>kv\<in>set (rev ws). \<exists>s. fst kv = PStr s" by (auto simp: ws_def)
  ultimately have "dict_lookup (rev ws) (PStr name) = Some (descs ! i)"
    by (simp add: dict_lookup_map_of)
  then have "dict_lookup res (PStr name) = Some (descs ! i)"
    by (simp add: res ws_def dict_lookup_dict_update)
  with desc show ?thesis by blast
qed

lemma property_of_default:
  assumes "property_of spec d0 = Inr desc" and "deref spec d0 = Inr d"
    and "py_contains ''type'' d = Inr False"
  shows "pd_type desc = PStr ''object''"
  using assms get_absent [OF assms(3)]
  by (auto simp: property_of_def split: sum.splits)

subsection \<open>Merging\<close>

lemma dict_lookup_none: "\<forall>kv\<in>set ws. \<not> key_eq (fst kv) n \<Longrightarrow> dict_lookup ws n = None"
  by (induction ws) auto

subsection \<open>The stub\<close>

lemma strings_of_map: "strings_of ns = Inr ss \<Longrightarrow> ns = map PStr ss"
  by (induction ns arbitrary: ss) (auto split: node.splits sum.splits)

lemma build_stub_text:
  assumes "build_stub spec path details = Inr code"
  shows "\<exists>fn pp qp body bn url.
           raw_params ''path'' details = Inr (map PStr pp) \<and>
           raw_params ''query'' details = Inr (map PStr qp) \<and>
           request_body_params details = Inr body \<and> py_keys body = Inr bn \<and>
           code = stub_text fn pp qp bn url path"
  using assms
  by (auto simp: build_stub_def split: sum.splits dest!: strings_of_map)

lemma stub_text_get: "suffix get_lines (stub_text fn pp qp [] url path)"
  unfolding stub_text_def get_lines_def suffix_def by simp

lemma get_is_dict: "py_get n k d = Inr v \<Longrightarrow> \<exists>kvs. n = PDict kvs"
  by (cases n) (auto simp: py_get_def)

lemma getitem_get: "py_getitem n k = Inr v \<Longrightarrow> py_get n k d = Inr v"
  by (cases n) (auto simp: py_getitem_def py_get_def split: option.splits)

lemma request_body_params_empty:
  assumes "py_getitem details ''requestBody'' = Inr rb"
    and "request_body_params details = Inr body"
    and "py_contains ''content'' rb = Inr False \<or>
         (\<exists>c. py_getitem rb ''content'' = Inr c \<and> py_contains ''application/json'' c = Inr False)"
  shows "body = PDict []"
proof -
  from assms(1,2) obtain content where
    c: "py_get rb ''content'' (PDict []) = Inr content"
    and r: "(case py_get content ''application/json'' (PDict []) of
        Inl e \<Rightarrow> Inl e
      | Inr media \<Rightarrow>
     (case py_get media ''schema'' (PDict []) of
        Inl e \<Rightarrow> Inl e
      | Inr schema \<Rightarrow> py_get schema ''properties'' (PDict []))) = Inr body"
    by (auto simp: request_body_params_def getitem_get split: sum.splits)
  from r obtain media where m: "py_get content ''application/json'' (PDict []) = Inr media"
    by (auto split: sum.splits)
  from get_is_dict [OF m] obtain ckvs where ck: "content = PDict ckvs" ..
  have "media = PDict []"
    using assms(3)
  proof
    assume "py_contains ''content'' rb = Inr False"
    from get_absent [OF this c] have "content = PDict []" .
    with m show ?thesis by (simp add: py_get_def)
  next
    assume "\<exists>c. py_getitem rb ''content'' = Inr c \<and> py_contains ''application/json'' c = Inr False"
    then obtain c' where "py_getitem rb ''content'' = Inr c'"
      "py_contains ''application/json'' c' = Inr False" by blast
    with c have "py_contains ''application/json'' content = Inr False"
      by (simp add: getitem_get)
    from get_absent [OF this m] show ?thesis .
  qed
  with r m show ?thesis by (simp add: py_get_def)
qed

lemma request_body_params_raw:
  assumes "py_getitem details ''requestBody'' = Inr rb" and "py_getitem rb ''content'' = Inr c"
    and "py_getitem c ''application/json'' = Inr media"
    and "py_getitem media ''schema'' = Inr schema"
  shows "request_body_params details = py_get schema ''properties'' (PDict [])"
  using assms by (simp add: request_body_params_def getitem_get)

lemma stub_text_post:
  "bn \<noteq> [] \<Longrightarrow> suffix (post_lines bn) (stub_text fn pp qp bn url path)"
  unfolding stub_text_def post_lines_def suffix_def by simp

lemma request_body_params_no_properties:
  assumes "py_getitem details ''requestBody'' = Inr rb" and "py_getitem rb ''content'' = Inr c"
    and "py_getitem c ''application/json'' = Inr media"
    and "request_body_params details = Inr body"
    and "py_contains ''schema'' media = Inr False \<or>
         (\<exists>schema. py_getitem media ''schema'' = Inr schema \<and>
            py_contains ''properties'' schema = Inr False)"
  shows "body = PDict []"
  using assms(5)
proof
  assume a: "py_contains ''schema'' media = Inr False"
  from assms(1-4) obtain schema where
    s: "py_get media ''schema'' (PDict []) = Inr schema"
    and b: "py_get schema ''properties'' (PDict []) = Inr body"
    by (auto simp: request_body_params_def getitem_get split: sum.splits)
  from get_absent [OF a s] have "schema = PDict []" .
  with b show ?thesis by (simp add: py_get_def)
next
  assume "\<exists>schema. py_getitem media ''schema'' = Inr schema \<and>
            py_contains ''properties'' schema = Inr False"
  then obtain schema where s: "py_getitem media ''schema'' = Inr schema"
    and a: "py_contains ''properties'' schema = Inr False" by blast
  from request_body_params_raw [OF assms(1-3) s] assms(4)
  have "py_get schema ''properties'' (PDict []) = Inr body" by simp
  from get_absent [OF a this] show ?thesis .
qed

lemma written_keys_present:
  assumes "build_function spec details = Inr f" and "property_writes spec details = Inr ws"
    and "(k, v) \<in> set ws"
  shows "dict_lookup (ps_properties (fd_parameters f)) k \<noteq> None"
proof -
  from build_function_writes [OF assms(1)] assms(2)
  have "ps_properties (fd_parameters f) = dict_update [] ws" by auto
  moreover have "dict_lookup (rev ws) k \<noteq> None"
    using assms(3) by (intro dict_lookup_written [of k v]) simp_all
  ultimately show ?thesis
    by (auto simp: dict_lookup_dict_update split: option.splits)
qed

lemma collect_nth:
  "collect g xs = Inr ys \<Longrightarrow> x \<in> set xs \<Longrightarrow> \<exists>y. g x = Inr y \<and> y \<in> set ys"
  by (induction xs arbitrary: ys) (auto split: sum.splits)

lemma property_writes_parts:
  assumes "property_writes spec details = Inr ws"
  shows "\<exists>params entries items contents.
           operation_params details = Inr params \<and>
           collect (param_entry spec) params = Inr entries \<and>
           operation_contents spec details = Inr items \<and>
           collect (\<lambda>item. content_entry spec (snd item)) items = Inr contents \<and>
           ws = map (\<lambda>en. (fst en, fst (snd en))) entries @ concat (map fst contents)"
  using assms unfolding property_writes_def
  by (simp split: sum.splits)

lemma params_in_reads_in:
  "params_in loc (before @ p # after) = Inr ns \<Longrightarrow> \<exists>l. py_get p ''in'' PNone = Inr l"
  by (induction before arbitrary: ns) (auto split: sum.splits if_splits)

lemma flattened_properties_present:
  assumes "build_function spec details = Inr f"
  shows "\<exists>items. operation_contents spec details = Inr items \<and>
           (\<forall>item\<in>set items. \<exists>props names.
              content_entry spec (snd item) = Inr (props, names) \<and>
              (\<forall>kv\<in>set props. dict_lookup (ps_properties (fd_parameters f)) (fst kv) \<noteq> None))"
proof -
  from build_function_writes [OF assms] obtain ws where ws: "property_writes spec details = Inr ws"
    by blast
  from property_writes_parts [OF this]
  obtain entries :: "(node \<times> property_descriptor \<times> bool) list" and items contents where
    items: "operation_contents spec details = Inr items"
    and c: "collect (\<lambda>item. content_entry spec (snd item)) items = Inr contents"
    and w: "ws = map (\<lambda>en. (fst en, fst (snd en))) entries @ concat (map fst contents)"
    by blast
  have "\<exists>props names. content_entry spec (snd item) = Inr (props, names) \<and>
          (\<forall>kv\<in>set props. dict_lookup (ps_properties (fd_parameters f)) (fst kv) \<noteq> None)"
    if "item \<in> set items" for item
  proof -
    from collect_nth [OF c that] obtain y where y: "content_entry spec (snd item) = Inr y"
      "y \<in> set contents" by blast
    have "dict_lookup (ps_properties (fd_parameters f)) (fst kv) \<noteq> None" if "kv \<in> set (fst y)" for kv
    proof -
      from that y(2) have "(fst kv, snd kv) \<in> set ws" by (auto simp: w)
      from written_keys_present [OF assms ws this] show ?thesis .
    qed
    with y(1) show ?thesis by (cases y) auto
  qed
  with items show ?thesis by blast
qed

lemma params_in_skip:
  assumes "py_get p ''in'' PNone = Inr l" and "l \<noteq> PStr loc"
  shows "params_in loc (before @ p # after) = params_in loc (before @ after)"
  using assms by (induction before) (auto split: sum.splits)

section \<open>Writes of the converter\<close>

lemma touches_ret [simp]: "touches W (ret x) s"
  by (simp add: touches_def ret_def)

lemma touches_look [simp]: "touches W (look f) s"
  by (simp add: touches_def look_def)

lemma touches_alloc [simp]: "touches W (alloc ob) s"
  by (simp add: touches_def alloc_def nth_append)

lemma touches_mono: "touches W m s \<Longrightarrow> W \<subseteq> W' \<Longrightarrow> touches W' m s"
  by (auto simp: touches_def)

lemma touches_bnd:
  assumes "touches W m s" and "\<And>x s'. m s = (Inr x, s') \<Longrightarrow> touches W (f x) s'"
  shows "touches W (bnd m f) s"
proof (cases "m s")
  case (Pair res s')
  show ?thesis
  proof (cases res)
    case (Inl e)
    with Pair assms(1) show ?thesis by (simp add: touches_def bnd_def)
  next
    case (Inr x)
    with Pair assms(2) have "touches W (f x) s'" by simp
    with assms(1) Pair Inr show ?thesis
      by (auto simp: touches_def bnd_def)
  qed
qed

lemma touches_bnd_alloc:
  assumes "touches (insert (length s) W) (f (VRef (length s))) (s @ [ob])"
  shows "touches W (bnd (alloc ob) f) s"
  using assms by (auto simp: touches_def bnd_def alloc_def nth_append)

lemma touches_if:
  "(c \<Longrightarrow> touches W m s) \<Longrightarrow> (\<not> c \<Longrightarrow> touches W m' s) \<Longrightarrow> touches W (if c then m else m') s"
  by simp

lemma nth_update_other: "a \<in> W \<Longrightarrow> j \<notin> W \<Longrightarrow> s[a := ob] ! j = s ! j"
  by (rule nth_list_update_neq) auto

lemma touches_overwrite: "a \<in> W \<Longrightarrow> touches W (overwrite a ob) s"
  by (auto simp: touches_def overwrite_def nth_update_other)

lemma touches_fail [simp]: "touches W (\<lambda>s. (Inl e, s)) s"
  by (simp add: touches_def)

lemma touches_setitem:
  "(\<And>a. target = VRef a \<Longrightarrow> a \<in> W) \<Longrightarrow> touches W (st_setitem target k v) s"
  by (auto simp: touches_def st_setitem_def overwrite_def nth_update_other split: val.splits option.splits obj.splits)

lemma touches_append:
  "(\<And>a. target = VRef a \<Longrightarrow> a \<in> W) \<Longrightarrow> touches W (st_append target v) s"
  by (auto simp: touches_def st_append_def overwrite_def nth_update_other split: val.splits option.splits obj.splits)

lemma touches_extend:
  "(\<And>a. target = VRef a \<Longrightarrow> a \<in> W) \<Longrightarrow> touches W (st_extend target it) s"
  by (auto simp: touches_def st_extend_def overwrite_def nth_update_other
      split: val.splits option.splits obj.splits sum.splits)

lemma touches_update:
  "(\<And>a. target = VRef a \<Longrightarrow> a \<in> W) \<Longrightarrow> touches W (st_update target other) s"
  by (auto simp: touches_def st_update_def overwrite_def nth_update_other
      split: val.splits option.splits obj.splits)

lemma touches_deref [simp]: "touches W (st_deref spec x) s"
  unfolding st_deref_def by (intro touches_bnd touches_if) simp_all

lemma touches_extract_loop:
  "(\<And>a. properties = VRef a \<Longrightarrow> a \<in> W) \<Longrightarrow> touches W (st_extract_loop spec properties items) s"
proof (induction items arbitrary: s)
  case Nil
  then show ?case by simp
next
  case (Cons item items)
  obtain k d where item: "item = (k, d)" by (cases item)
  show ?case
    unfolding item st_extract_loop.simps
    by (intro touches_bnd touches_setitem Cons) simp_all
qed

lemma touches_extract_properties [simp]: "touches W (st_extract_properties schema0 spec) s"
  unfolding st_extract_properties_def
  by (intro touches_bnd_alloc touches_bnd touches_if touches_extract_loop) simp_all

lemma fn_at_step:
  assumes "fn_at f q r s" and "touches {q, r} m s" and "m s = (res, s')"
  shows "fn_at f q r s'"
proof -
  from assms(1) obtain fa pa fkvs pkvs where
    h: "f = VRef fa" "fa < length s" "s ! fa = ODict fkvs"
      "obj_lookup fkvs (VStr ''parameters'') = Some (VRef pa)"
      "pa < length s" "s ! pa = ODict pkvs"
      "obj_lookup pkvs (VStr ''properties'') = Some (VRef q)"
      "obj_lookup pkvs (VStr ''required'') = Some (VRef r)"
      "fa \<notin> {q, r}" "pa \<notin> {q, r}"
    unfolding fn_at_def by blast
  from assms(2,3) have len: "length s \<le> length s'"
    and same: "\<And>a. a < length s \<Longrightarrow> a \<notin> {q, r} \<Longrightarrow> s' ! a = s ! a"
    by (auto simp: touches_def)
  from same [of fa] same [of pa] h have "s' ! fa = ODict fkvs" "s' ! pa = ODict pkvs"
    by auto
  with h len show ?thesis
    unfolding fn_at_def by (intro exI [of _ fa] exI [of _ pa] exI [of _ fkvs] exI [of _ pkvs]) auto
qed

lemma touches_bnd_fn:
  assumes "fn_at f q r s" and "touches {q, r} m s"
    and "\<And>x s'. fn_at f q r s' \<Longrightarrow> touches {q, r} (g x) s'"
  shows "touches {q, r} (bnd m g) s"
  using assms(2)
proof (rule touches_bnd)
  fix x s'
  assume "m s = (Inr x, s')"
  from fn_at_step [OF assms(1,2) this] show "touches {q, r} (g x) s'" by (rule assms(3))
qed

lemma fn_at_properties:
  assumes "fn_at f q r s"
  shows "\<exists>ps. st_getitem f ''parameters'' s = Inr ps \<and>
           st_getitem ps ''properties'' s = Inr (VRef q) \<and>
           st_getitem ps ''required'' s = Inr (VRef r)"
  using assms unfolding fn_at_def
  by (auto simp: st_getitem_def load_def)

lemma touches_set_property:
  assumes "fn_at f q r s"
  shows "touches {q, r} (st_set_property f k v) s"
proof -
  from fn_at_properties [OF assms] obtain ps where
    "st_getitem f ''parameters'' s = Inr ps" "st_getitem ps ''properties'' s = Inr (VRef q)"
    by blast
  then have "st_set_property f k v s = st_setitem (VRef q) k v s"
    by (simp add: st_set_property_def bnd_def look_def)
  moreover have "touches {q, r} (st_setitem (VRef q) k v) s"
    by (rule touches_setitem) simp
  ultimately show ?thesis by (simp add: touches_def)
qed

lemma touches_append_required:
  assumes "fn_at f q r s"
  shows "touches {q, r} (st_append_required f n) s"
proof -
  from fn_at_properties [OF assms] obtain ps where
    "st_getitem f ''parameters'' s = Inr ps" "st_getitem ps ''required'' s = Inr (VRef r)"
    by blast
  then have "st_append_required f n s = st_append (VRef r) n s"
    by (simp add: st_append_required_def bnd_def look_def)
  moreover have "touches {q, r} (st_append (VRef r) n) s"
    by (rule touches_append) simp
  ultimately show ?thesis by (simp add: touches_def)
qed

lemma touches_update_properties:
  assumes "fn_at f q r s"
  shows "touches {q, r} (st_update_properties f properties) s"
proof -
  from fn_at_properties [OF assms] obtain ps where
    "st_getitem f ''parameters'' s = Inr ps" "st_getitem ps ''properties'' s = Inr (VRef q)"
    by blast
  then have "st_update_properties f properties s = st_update (VRef q) properties s"
    by (simp add: st_update_properties_def bnd_def look_def)
  moreover have "touches {q, r} (st_update (VRef q) properties) s"
    by (rule touches_update) simp
  ultimately show ?thesis by (simp add: touches_def)
qed

lemma touches_extend_required:
  assumes "fn_at f q r s"
  shows "touches {q, r} (st_extend_required f required) s"
proof -
  from fn_at_properties [OF assms] obtain ps where
    "st_getitem f ''parameters'' s = Inr ps" "st_getitem ps ''required'' s = Inr (VRef r)"
    by blast
  then have "st_extend_required f required s = st_extend (VRef r) required s"
    by (simp add: st_extend_required_def bnd_def look_def)
  moreover have "touches {q, r} (st_extend (VRef r) required) s"
    by (rule touches_extend) simp
  ultimately show ?thesis by (simp add: touches_def)
qed

lemma touches_param_details [simp]: "touches W (st_param_details spec param0) s"
  unfolding st_param_details_def
  by (intro touches_bnd_alloc touches_bnd) simp_all

lemma touches_handle_param:
  assumes "fn_at f q r s"
  shows "touches {q, r} (st_handle_param spec f param0) s"
  unfolding st_handle_param_def
proof (rule touches_bnd_fn [OF assms])
  show "touches {q, r} (st_param_details spec param0) s" by simp
next
  fix x :: "val \<times> val \<times> val" and s1
  assume f1: "fn_at f q r s1"
  obtain param param_name param_details where x: "x = (param, param_name, param_details)"
    by (cases x)
  show "touches {q, r}
          (case x of (param, param_name, param_details) \<Rightarrow>
             bnd (st_set_property f param_name param_details) (\<lambda>_.
             bnd (look (st_get param ''required'' (VBool False))) (\<lambda>req.
             bnd (look (\<lambda>s. Inr (st_truthy req s))) (\<lambda>is_required.
               if is_required then st_append_required f param_name else ret ())))) s1"
    unfolding x prod.case
  proof (rule touches_bnd_fn [OF f1 touches_set_property [OF f1]])
    fix u s2
    assume f2: "fn_at f q r s2"
    show "touches {q, r}
            (bnd (look (st_get param ''required'' (VBool False))) (\<lambda>req.
             bnd (look (\<lambda>s. Inr (st_truthy req s))) (\<lambda>is_required.
               if is_required then st_append_required f param_name else ret ()))) s2"
      by (auto simp: bnd_def look_def touches_append_required [OF f2, unfolded touches_def]
          touches_def ret_def split: sum.splits)
  qed
qed

lemma touches_params_loop:
  "fn_at f q r s \<Longrightarrow> touches {q, r} (st_params_loop spec f params) s"
proof (induction params arbitrary: s)
  case Nil
  then show ?case by simp
next
  case (Cons p params)
  show ?case
    unfolding st_params_loop.simps
    by (rule touches_bnd_fn [OF Cons.prems touches_handle_param [OF Cons.prems]]) (rule Cons.IH)
qed

lemma touches_handle_content:
  assumes "fn_at f q r s"
  shows "touches {q, r} (st_handle_content spec f schema_obj) s"
  unfolding st_handle_content_def
proof (rule touches_bnd_fn [OF assms])
  show "touches {q, r} (look (st_getitem schema_obj ''schema'')) s" by simp
next
  fix schema0 s1
  assume f1: "fn_at f q r s1"
  show "touches {q, r}
          (bnd (st_deref spec schema0) (\<lambda>schema.
           bnd (st_extract_properties schema spec) (\<lambda>(properties, required).
           bnd (st_update_properties f properties) (\<lambda>_.
           st_extend_required f required)))) s1"
  proof (rule touches_bnd_fn [OF f1])
    show "touches {q, r} (st_deref spec schema0) s1" by simp
  next
    fix schema s2
    assume f2: "fn_at f q r s2"
    show "touches {q, r}
            (bnd (st_extract_properties schema spec) (\<lambda>(properties, required).
             bnd (st_update_properties f properties) (\<lambda>_.
             st_extend_required f required))) s2"
    proof (rule touches_bnd_fn [OF f2])
      show "touches {q, r} (st_extract_properties schema spec) s2" by simp
    next
      fix x :: "val \<times> val" and s3
      assume f3: "fn_at f q r s3"
      obtain properties required where x: "x = (properties, required)" by (cases x)
      show "touches {q, r}
              (case x of (properties, required) \<Rightarrow>
                 bnd (st_update_properties f properties) (\<lambda>_.
                 st_extend_required f required)) s3"
        unfolding x prod.case
        by (rule touches_bnd_fn [OF f3 touches_update_properties [OF f3]])
          (rule touches_extend_required)
    qed
  qed
qed

lemma touches_content_loop:
  "fn_at f q r s \<Longrightarrow> touches {q, r} (st_content_loop spec f items) s"
proof (induction items arbitrary: s)
  case Nil
  then show ?case by simp
next
  case (Cons item items)
  obtain content_type schema_obj where item: "item = (content_type, schema_obj)" by (cases item)
  show ?case
    unfolding item st_content_loop.simps
    by (rule touches_bnd_fn [OF Cons.prems touches_handle_content [OF Cons.prems]]) (rule Cons.IH)
qed

lemma touches_handle_parameters:
  assumes "fn_at f q r s"
  shows "touches {q, r} (st_handle_parameters spec details f) s"
  unfolding st_handle_parameters_def
proof (rule touches_bnd_fn [OF assms])
  show "touches {q, r} (look (st_contains ''parameters'' details)) s" by simp
next
  fix has_parameters s1
  assume f1: "fn_at f q r s1"
  show "touches {q, r}
          (if has_parameters then
             bnd (look (st_getitem details ''parameters'')) (\<lambda>ps.
             bnd (look (st_iter ps)) (\<lambda>params.
             st_params_loop spec f params))
           else ret ()) s1"
    using touches_params_loop [OF f1, unfolded touches_def]
    by (auto simp: bnd_def look_def touches_def ret_def split: sum.splits)
qed

lemma touches_handle_request_body:
  assumes "fn_at f q r s"
  shows "touches {q, r} (st_handle_request_body spec details f) s"
  unfolding st_handle_request_body_def
proof (rule touches_bnd_fn [OF assms])
  show "touches {q, r} (look (st_contains ''requestBody'' details)) s" by simp
next
  fix has_body s1
  assume f1: "fn_at f q r s1"
  show "touches {q, r}
          (if has_body then
             bnd (look (st_getitem details ''requestBody'')) (\<lambda>request_body0.
             bnd (st_deref spec request_body0) (\<lambda>request_body.
             bnd (look (st_getitem request_body ''content'')) (\<lambda>content.
             bnd (look (st_items content)) (\<lambda>items.
             st_content_loop spec f items))))
           else ret ()) s1"
  proof (cases has_body)
    case False
    then show ?thesis by simp
  next
    case True
    have "touches {q, r}
           (bnd (look (st_getitem details ''requestBody'')) (\<lambda>request_body0.
            bnd (st_deref spec request_body0) (\<lambda>request_body.
            bnd (look (st_getitem request_body ''content'')) (\<lambda>content.
            bnd (look (st_items content)) (\<lambda>items.
            st_content_loop spec f items))))) s1"
    proof (rule touches_bnd_fn [OF f1])
      show "touches {q, r} (look (st_getitem details ''requestBody'')) s1" by simp
    next
      fix request_body0 s2
      assume f2: "fn_at f q r s2"
      show "touches {q, r}
              (bnd (st_deref spec request_body0) (\<lambda>request_body.
               bnd (look (st_getitem request_body ''content'')) (\<lambda>content.
               bnd (look (st_items content)) (\<lambda>items.
               st_content_loop spec f items)))) s2"
      proof (rule touches_bnd_fn [OF f2])
        show "touches {q, r} (st_deref spec request_body0) s2" by simp
      next
        fix request_body s3
        assume f3: "fn_at f q r s3"
        show "touches {q, r}
                (bnd (look (st_getitem request_body ''content'')) (\<lambda>content.
                 bnd (look (st_items content)) (\<lambda>items.
                 st_content_loop spec f items))) s3"
          using touches_content_loop [OF f3, unfolded touches_def]
          by (auto simp: bnd_def look_def touches_def split: sum.splits)
      qed
    qed
    with True show ?thesis by simp
  qed
qed

lemma touches_grow:
  assumes "m s = (Inr x, s @ ext)" and "touches W' (g x) (s @ ext)"
    and "\<And>a. a \<in> W' \<Longrightarrow> a < length s \<Longrightarrow> a \<in> W"
  shows "touches W (bnd m g) s"
proof -
  have run: "bnd m g s = g x (s @ ext)"
    using assms(1) by (simp add: bnd_def)
  from assms(2) have len: "length (s @ ext) \<le> length (snd (g x (s @ ext)))"
    and same: "\<And>a. a < length (s @ ext) \<Longrightarrow> a \<notin> W' \<Longrightarrow> snd (g x (s @ ext)) ! a = (s @ ext) ! a"
    by (auto simp: touches_def)
  have "snd (g x (s @ ext)) ! a = s ! a" if "a < length s" "a \<notin> W" for a
  proof -
    from that assms(3) have "a \<notin> W'" by blast
    with same [of a] that(1) show ?thesis by (simp add: nth_append)
  qed
  with len show ?thesis
    unfolding touches_def run by simp
qed

lemma new_function_run:
  "st_new_function operation_id summary s =
     (Inr (VRef (length s + 3)),
      s @ [ODict [], OList [],
           ODict [(VStr ''type'', VStr ''object''), (VStr ''properties'', VRef (length s)),
                  (VStr ''required'', VRef (length s + 1))],
           ODict [(VStr ''name'', operation_id), (VStr ''description'', summary),
                  (VStr ''parameters'', VRef (length s + 2))]])"
  by (simp add: st_new_function_def bnd_def alloc_def)

lemma new_function_fn_at:
  "fn_at (VRef (length s + 3)) (length s) (length s + 1)
     (s @ [ODict [], OList [],
           ODict [(VStr ''type'', VStr ''object''), (VStr ''properties'', VRef (length s)),
                  (VStr ''required'', VRef (length s + 1))],
           ODict [(VStr ''name'', operation_id), (VStr ''description'', summary),
                  (VStr ''parameters'', VRef (length s + 2))]])"
  unfolding fn_at_def
  by (intro exI [of _ "length s + 3"] exI [of _ "length s + 2"]
      exI [of _ "[(VStr ''name'', operation_id), (VStr ''description'', summary),
                  (VStr ''parameters'', VRef (length s + 2))]"]
      exI [of _ "[(VStr ''type'', VStr ''object''), (VStr ''properties'', VRef (length s)),
                  (VStr ''required'', VRef (length s + 1))]"])
    (simp add: nth_append)

lemma touches_with_new_function:
  "touches W
     (bnd (st_new_function operation_id summary) (\<lambda>function.
      bnd (st_handle_parameters spec details function) (\<lambda>_.
      bnd (st_handle_request_body spec details function) (\<lambda>_. ret function)))) s"
proof -
  let ?f = "VRef (length s + 3)"
  let ?s = "s @ [ODict [], OList [],
           ODict [(VStr ''type'', VStr ''object''), (VStr ''properties'', VRef (length s)),
                  (VStr ''required'', VRef (length s + 1))],
           ODict [(VStr ''name'', operation_id), (VStr ''description'', summary),
                  (VStr ''parameters'', VRef (length s + 2))]]"
  have f: "fn_at ?f (length s) (length s + 1) ?s" by (rule new_function_fn_at)
  have t: "touches {length s, length s + 1}
          (bnd (st_handle_parameters spec details ?f) (\<lambda>_.
           bnd (st_handle_request_body spec details ?f) (\<lambda>_. ret ?f))) ?s"
  proof (rule touches_bnd_fn [OF f touches_handle_parameters [OF f]])
    fix u s3
    assume f3: "fn_at ?f (length s) (length s + 1) s3"
    show "touches {length s, length s + 1}
            (bnd (st_handle_request_body spec details ?f) (\<lambda>_. ret ?f)) s3"
      by (rule touches_bnd_fn [OF f3 touches_handle_request_body [OF f3]]) simp
  qed
  show ?thesis
  proof (rule touches_grow [OF new_function_run])
    show "touches {length s, length s + 1}
            (bnd (st_handle_parameters spec details ?f) (\<lambda>_.
             bnd (st_handle_request_body spec details ?f) (\<lambda>_. ret ?f))) ?s"
      by (rule t)
  qed auto
qed

lemma touches_build_function [simp]: "touches W (st_build_function spec details) s"
  unfolding st_build_function_def
proof (rule touches_bnd)
  show "touches W (look (st_getitem details ''operationId'')) s" by simp
next
  fix operation_id s1
  show "touches W
          (bnd (look (st_get details ''summary'' (VStr []))) (\<lambda>summary.
           bnd (st_new_function operation_id summary) (\<lambda>function.
           bnd (st_handle_parameters spec details function) (\<lambda>_.
           bnd (st_handle_request_body spec details function) (\<lambda>_. ret function))))) s1"
    by (rule touches_bnd) (simp_all add: touches_with_new_function)
qed

lemma touches_raw_params [simp]: "touches W (st_raw_params loc details) s"
  unfolding st_raw_params_def
  by (intro touches_bnd_alloc touches_bnd) simp_all

lemma touches_request_body_params [simp]: "touches W (st_request_body_params details) s"
  unfolding st_request_body_params_def
  by (intro touches_bnd_alloc touches_bnd) simp_all

lemma touches_build_stub [simp]: "touches W (st_build_stub spec path details) s"
  unfolding st_build_stub_def
  by (intro touches_bnd) simp_all

lemma touches_transform_operation [simp]:
  "touches W (st_transform_operation spec path details) s"
  unfolding st_transform_operation_def
  by (intro touches_bnd) simp_all

lemma touches_methods_loop:
  assumes "\<And>a. fs = VRef a \<Longrightarrow> a \<in> W" and "\<And>a. cs = VRef a \<Longrightarrow> a \<in> W"
  shows "touches W (st_methods_loop spec fs cs path ms) s"
proof (induction ms arbitrary: s)
  case Nil
  then show ?case by simp
next
  case (Cons md ms)
  obtain mth details where md: "md = (mth, details)" by (cases md)
  show ?case
    unfolding md st_methods_loop.simps
  proof (rule touches_bnd)
    show "touches W (st_transform_operation spec path details) s" by simp
  next
    fix x :: "val \<times> string" and s1
    obtain g c where x: "x = (g, c)" by (cases x)
    show "touches W
            (case x of (function, function_code) \<Rightarrow>
               bnd (st_append cs (VStr function_code)) (\<lambda>_.
               bnd (st_append fs function) (\<lambda>_. st_methods_loop spec fs cs path ms))) s1"
      unfolding x prod.case
      by (intro touches_bnd touches_append assms Cons.IH)
  qed
qed

lemma touches_paths_loop:
  assumes "\<And>a. fs = VRef a \<Longrightarrow> a \<in> W" and "\<And>a. cs = VRef a \<Longrightarrow> a \<in> W"
  shows "touches W (st_paths_loop spec fs cs items) s"
proof (induction items arbitrary: s)
  case Nil
  then show ?case by simp
next
  case (Cons pm items)
  obtain path methods where pm: "pm = (path, methods)" by (cases pm)
  show ?case
    unfolding pm st_paths_loop.simps
    by (intro touches_bnd touches_methods_loop assms Cons.IH) simp_all
qed

subsection \<open>The store and the trees agree on the example\<close>

text \<open>Run on the loaded example, the converter on the store returns two lists that
  read back as the descriptors and stubs computed on the tree, and the document reads
  back unchanged.\<close>

lemma store_run_agrees:
  "read_node 12 small_store small_ref = Some small_doc \<and>
   fst small_run = Inr (VRef 20, VRef 21) \<and>
   (case transform_to_openai_format small_doc of
      Inl e \<Rightarrow> False
    | Inr (functions, stubs) \<Rightarrow>
        read_node 12 (snd small_run) (VRef 20) = Some (PList (map function_node functions)) \<and>
        read_node 12 (snd small_run) (VRef 21) = Some (PList (map PStr stubs))) \<and>
   read_node 12 (snd small_run) small_ref = Some small_doc"
  by code_simp

section \<open>Claims\<close>

text \<open>
  C1. For every document and every reference \<^verbatim>\<open>#/a/b/c\<close> whose path exists in the document,
  \<^verbatim>\<open>resolve_ref\<close> returns the subtree reached by indexing the root by \<open>a\<close>, then \<open>b\<close>,
  then \<open>c\<close>. The code does so when the first key neither is empty nor starts with
  \<open>#\<close> (lemma \<open>resolve_ref_plain_keys\<close>), and not otherwise, because \<^verbatim>\<open>lstrip('#/')\<close>
  removes every leading \<open>#\<close> and \<open>/\<close> rather than the two-character prefix: in the document
  \<^verbatim>\<open>{"#defs": {"Pet": {"type": "object"}}}\<close> the reference \<^verbatim>\<open>#/#defs/Pet\<close> names an
  existing path, direct indexing reaches the schema, and \<^verbatim>\<open>resolve_ref\<close> raises KeyError.
\<close>

theorem resolve_ref_hash_key:
  "py_getitem hash_doc ''#defs'' = Inr (PDict [(''Pet'', PDict [(''type'', PStr ''object'')])]) \<and>
   py_getitem (PDict [(''Pet'', PDict [(''type'', PStr ''object'')])]) ''Pet'' =
     Inr (PDict [(''type'', PStr ''object'')]) \<and>
   resolve_ref (PStr ''#/#defs/Pet'') hash_doc = Inl KeyError"
  by (simp add: hash_doc_def resolve_ref_def lstrip_def py_getitem_def)




text \<open>
  C3. A parameter whose resolved schema has no \<open>type\<close> key gets a descriptor of type
  \<^verbatim>\<open>"string"\<close>: after the loop body has handled it, the entry stored under its name has
  that type. A request-body property whose resolved definition has no \<open>type\<close> key gets,
  from \<^verbatim>\<open>extract_properties\<close>, a descriptor of type \<^verbatim>\<open>"object"\<close> (the property names of a
  dict are distinct).
\<close>

theorem default_types:
  "(handle_param spec function param0 = Inr function' \<and> deref spec param0 = Inr param \<and>
    py_getitem param ''name'' = Inr param_name \<and>
    py_get param ''schema'' (PDict []) = Inr schema0 \<and> deref spec schema0 = Inr schema \<and>
    py_contains ''type'' schema = Inr False \<longrightarrow>
      (\<exists>d. dict_lookup (ps_properties (fd_parameters function')) param_name = Some d \<and>
           pd_type d = PStr ''string'')) \<and>
   (extract_properties schema1 spec = Inr (properties, required) \<and>
    deref spec schema1 = Inr schema2 \<and> py_getitem schema2 ''properties'' = Inr (PDict props) \<and>
    distinct (map fst props) \<and> (prop_name, prop_details0) \<in> set props \<and>
    deref spec prop_details0 = Inr prop_details \<and>
    py_contains ''type'' prop_details = Inr False \<longrightarrow>
      (\<exists>d. dict_lookup properties (PStr prop_name) = Some d \<and> pd_type d = PStr ''object''))"
proof (intro conjI impI; elim conjE)
  assume h: "handle_param spec function param0 = Inr function'" "deref spec param0 = Inr param"
    "py_getitem param ''name'' = Inr param_name"
    "py_get param ''schema'' (PDict []) = Inr schema0" "deref spec schema0 = Inr schema"
    "py_contains ''type'' schema = Inr False"
  from h obtain param_type descr where
    t: "py_get schema ''type'' (PStr ''string'') = Inr param_type"
    and f: "function' = set_property function param_name
              \<lparr>pd_type = param_type, pd_description = descr\<rparr> \<or>
            function' = append_required (set_property function param_name
              \<lparr>pd_type = param_type, pd_description = descr\<rparr>) param_name"
    by (auto simp: handle_param_def Let_def split: sum.splits if_splits)
  from get_absent [OF h(6) t] have "param_type = PStr ''string''" .
  with f show "\<exists>d. dict_lookup (ps_properties (fd_parameters function')) param_name = Some d \<and>
           pd_type d = PStr ''string''"
    by (auto simp: set_property_def append_required_def dict_lookup_dict_set)
next
  assume h: "extract_properties schema1 spec = Inr (properties, required)"
    "deref spec schema1 = Inr schema2" "py_getitem schema2 ''properties'' = Inr (PDict props)"
    "distinct (map fst props)" "(prop_name, prop_details0) \<in> set props"
    "deref spec prop_details0 = Inr prop_details" "py_contains ''type'' prop_details = Inr False"
  from h(1,2,3) have "extract_loop spec [] props = Inr properties"
    using getitem_contains [OF h(3)]
    by (auto simp: extract_properties_def py_items_def split: sum.splits)
  from extract_loop_lookup [OF this h(4,5)] obtain desc where
    "property_of spec prop_details0 = Inr desc" "dict_lookup properties (PStr prop_name) = Some desc"
    by blast
  with property_of_default [OF _ h(6,7)]
  show "\<exists>d. dict_lookup properties (PStr prop_name) = Some d \<and> pd_type d = PStr ''object''"
    by auto
qed

theorem default_types_witness:
  "(handle_param petstore create_pet_function tag_param =
      Inr (set_property create_pet_function (PStr ''tag'') (plain ''string'')) \<and>
    deref petstore tag_param = Inr tag_param \<and>
    py_getitem tag_param ''name'' = Inr (PStr ''tag'') \<and>
    py_get tag_param ''schema'' (PDict []) = Inr (PDict []) \<and>
    deref petstore (PDict []) = Inr (PDict []) \<and>
    py_contains ''type'' (PDict []) = Inr False) \<and>
   (\<exists>d. dict_lookup (ps_properties (fd_parameters
            (set_property create_pet_function (PStr ''tag'') (plain ''string'')))) (PStr ''tag'')
          = Some d \<and> pd_type d = PStr ''string'') \<and>
   (extract_properties pet_schema petstore = Inr (pet_flattened, PList [PStr ''name'']) \<and>
    deref petstore pet_schema = Inr pet_schema \<and>
    py_getitem pet_schema ''properties'' = Inr (PDict pet_properties) \<and>
    distinct (map fst pet_properties) \<and> (''tag'', PDict []) \<in> set pet_properties \<and>
    deref petstore (PDict []) = Inr (PDict []) \<and>
    py_contains ''type'' (PDict []) = Inr False) \<and>
   (\<exists>d. dict_lookup pet_flattened (PStr ''tag'') = Some d \<and> pd_type d = PStr ''object'')"
proof -
  have p: "handle_param petstore create_pet_function tag_param =
      Inr (set_property create_pet_function (PStr ''tag'') (plain ''string'')) \<and>
    deref petstore tag_param = Inr tag_param \<and>
    py_getitem tag_param ''name'' = Inr (PStr ''tag'') \<and>
    py_get tag_param ''schema'' (PDict []) = Inr (PDict []) \<and>
    deref petstore (PDict []) = Inr (PDict []) \<and>
    py_contains ''type'' (PDict []) = Inr False"
    by code_simp
  have q: "extract_properties pet_schema petstore = Inr (pet_flattened, PList [PStr ''name'']) \<and>
    deref petstore pet_schema = Inr pet_schema \<and>
    py_getitem pet_schema ''properties'' = Inr (PDict pet_properties) \<and>
    distinct (map fst pet_properties) \<and> (''tag'', PDict []) \<in> set pet_properties \<and>
    deref petstore (PDict []) = Inr (PDict []) \<and>
    py_contains ''type'' (PDict []) = Inr False"
    by code_simp
  from p q
    default_types [of petstore create_pet_function tag_param
      "set_property create_pet_function (PStr ''tag'') (plain ''string'')" tag_param
      "PStr ''tag''" "PDict []" "PDict []" pet_schema pet_flattened "PList [PStr ''name'']"
      pet_schema pet_properties "''tag''" "PDict []" "PDict []"]
  show ?thesis by blast
qed

text \<open>
  C4. The properties of an operation are merged last-write-wins in iteration order. Take
  every write to \<open>properties\<close> in that order: one per parameter, then the flattened
  properties of each content type in the order of the content map. Then the entry the
  finished descriptor has for a name is the value of the last write under that name,
  whether the earlier writes came from parameters or from content types.
\<close>

theorem last_write_wins:
  assumes "build_function spec details = Inr f"
  shows "\<exists>ws. property_writes spec details = Inr ws \<and>
           (\<forall>n. dict_lookup (ps_properties (fd_parameters f)) n = dict_lookup (rev ws) n) \<and>
           (\<forall>before k v after.
              ws = before @ (k, v) # after \<and> (\<forall>kv\<in>set after. \<not> key_eq (fst kv) k) \<longrightarrow>
              dict_lookup (ps_properties (fd_parameters f)) k = Some v)"
proof -
  from build_function_writes [OF assms] obtain ws where
    ws: "property_writes spec details = Inr ws"
    and p: "ps_properties (fd_parameters f) = dict_update [] ws"
    by blast
  have l: "dict_lookup (ps_properties (fd_parameters f)) n = dict_lookup (rev ws) n" for n
    by (simp add: p dict_lookup_dict_update split: option.splits)
  have "dict_lookup (ps_properties (fd_parameters f)) k = Some v"
    if "ws = before @ (k, v) # after" "\<forall>kv\<in>set after. \<not> key_eq (fst kv) k"
    for before k v after
  proof -
    from that(2) have "dict_lookup (rev after) k = None"
      by (intro dict_lookup_none) simp
    then show ?thesis
      by (simp add: l that(1) dict_lookup_append)
  qed
  with ws l show ?thesis by blast
qed

theorem last_write_wins_witness:
  "build_function petstore update_pet = Inr update_pet_function \<and>
   (\<exists>ws. property_writes petstore update_pet = Inr ws \<and>
      (\<forall>n. dict_lookup (ps_properties (fd_parameters update_pet_function)) n =
           dict_lookup (rev ws) n) \<and>
      (\<forall>before k v after.
         ws = before @ (k, v) # after \<and> (\<forall>kv\<in>set after. \<not> key_eq (fst kv) k) \<longrightarrow>
         dict_lookup (ps_properties (fd_parameters update_pet_function)) k = Some v))"
proof -
  have b: "build_function petstore update_pet = Inr update_pet_function"
    by code_simp
  from b last_write_wins [OF b] show ?thesis by blast
qed

text \<open>
  C5. The \<open>required\<close> list of an operation is the names of the parameters marked required,
  in order, followed by the required names of each content type in order, with nothing
  removed and no look at \<open>properties\<close>: a name required in two places is there twice.
\<close>

theorem required_concatenated:
  assumes "build_function spec details = Inr f"
  shows "required_names spec details = Inr (ps_required (fd_parameters f))"
  using build_function_writes [OF assms] by blast

theorem required_concatenated_witness:
  "build_function petstore update_pet = Inr update_pet_function \<and>
   required_names petstore update_pet = Inr (ps_required (fd_parameters update_pet_function)) \<and>
   ps_required (fd_parameters update_pet_function) = [PStr ''id'', PStr ''name'', PStr ''name'']"
proof -
  have b: "build_function petstore update_pet = Inr update_pet_function"
    by code_simp
  from b required_concatenated [OF b] show ?thesis
    by (simp add: update_pet_function_def)
qed

text \<open>
  C6. When an operation of the document has no \<open>operationId\<close>, or its request body (after
  resolution) has no \<open>content\<close>, or the document has no \<open>servers\<close> while it has an
  operation, the conversion as a whole ends in an error: no list of functions or stubs
  is returned, whatever the other operations are.
\<close>

theorem missing_field_aborts:
  assumes "operations spec = Inr ops" and "(path, method, details) \<in> set ops"
  shows "(py_contains ''operationId'' details = Inr False \<longrightarrow>
            (\<exists>e. transform_to_openai_format spec = Inl e)) \<and>
         (\<forall>rb body. py_getitem details ''requestBody'' = Inr rb \<and> deref spec rb = Inr body \<and>
              py_contains ''content'' body = Inr False \<longrightarrow>
            (\<exists>e. transform_to_openai_format spec = Inl e)) \<and>
         (py_contains ''servers'' spec = Inr False \<longrightarrow>
            (\<exists>e. transform_to_openai_format spec = Inl e))"
  using operation_failure_aborts [OF assms, simplified]
    no_operationId_fails no_content_fails no_servers_fails
  by blast

theorem missing_field_aborts_witness:
  "(operations no_operation_id = Inr [(''/a'', ''get'', unnamed_op)] \<and>
    (''/a'', ''get'', unnamed_op) \<in> set [(''/a'', ''get'', unnamed_op)] \<and>
    py_contains ''operationId'' unnamed_op = Inr False \<and>
    (\<exists>e. transform_to_openai_format no_operation_id = Inl e)) \<and>
   (operations no_content = Inr [(''/b'', ''post'', bodiless_op)] \<and>
    (''/b'', ''post'', bodiless_op) \<in> set [(''/b'', ''post'', bodiless_op)] \<and>
    py_getitem bodiless_op ''requestBody'' = Inr (PDict []) \<and>
    deref no_content (PDict []) = Inr (PDict []) \<and>
    py_contains ''content'' (PDict []) = Inr False \<and>
    (\<exists>e. transform_to_openai_format no_content = Inl e)) \<and>
   (operations no_servers = Inr [(''/c'', ''get'', ping_op)] \<and>
    (''/c'', ''get'', ping_op) \<in> set [(''/c'', ''get'', ping_op)] \<and>
    py_contains ''servers'' no_servers = Inr False \<and>
    (\<exists>e. transform_to_openai_format no_servers = Inl e))"
proof -
  have a: "operations no_operation_id = Inr [(''/a'', ''get'', unnamed_op)]"
    and a': "py_contains ''operationId'' unnamed_op = Inr False"
    by code_simp+
  have b: "operations no_content = Inr [(''/b'', ''post'', bodiless_op)]"
    and b': "py_getitem bodiless_op ''requestBody'' = Inr (PDict []) \<and>
      deref no_content (PDict []) = Inr (PDict []) \<and>
      py_contains ''content'' (PDict []) = Inr False"
    by code_simp+
  have c: "operations no_servers = Inr [(''/c'', ''get'', ping_op)]"
    and c': "py_contains ''servers'' no_servers = Inr False"
    by code_simp+
  from a a' missing_field_aborts [OF a, of "''/a''" "''get''" unnamed_op]
  have "\<exists>e. transform_to_openai_format no_operation_id = Inl e" by simp
  moreover from b b' missing_field_aborts [OF b, of "''/b''" "''post''" bodiless_op]
  have "\<exists>e. transform_to_openai_format no_content = Inl e" by simp
  moreover from c c' missing_field_aborts [OF c, of "''/c''" "''get''" ping_op]
  have "\<exists>e. transform_to_openai_format no_servers = Inl e" by simp
  ultimately show ?thesis using a a' b b' c c' by simp
qed

text \<open>
  C7. When the conversion succeeds, the two lists have the length of the list of
  operations of the document, taken path by path in document order and method by method
  within a path, and at every index the function descriptor and the stub are the ones
  built from the operation at that index.
\<close>

theorem outputs_parallel:
  assumes "transform_to_openai_format spec = Inr (functions, stubs)"
  shows "\<exists>ops. operations spec = Inr ops \<and>
           length functions = length ops \<and> length stubs = length ops \<and>
           (\<forall>i<length ops.
              build_function spec (snd (snd (ops ! i))) = Inr (functions ! i) \<and>
              build_stub spec (fst (ops ! i)) (snd (snd (ops ! i))) = Inr (stubs ! i))"
proof -
  from transform_operations_defined [OF assms] obtain ops where ops: "operations spec = Inr ops" ..
  from transform_as_collect [OF ops] assms obtain rs where
    rs: "collect (op_result spec) ops = Inr rs" and f: "functions = map fst rs"
    and c: "stubs = map snd rs"
    by (auto split: sum.splits)
  from rs have all: "list_all2 (\<lambda>x y. op_result spec x = Inr y) ops rs"
    by (simp add: collect_Inr_iff)
  then have len: "length rs = length ops" by (simp add: list_all2_lengthD)
  have "build_function spec (snd (snd (ops ! i))) = Inr (functions ! i) \<and>
        build_stub spec (fst (ops ! i)) (snd (snd (ops ! i))) = Inr (stubs ! i)"
    if "i < length ops" for i
  proof -
    from all that have "op_result spec (ops ! i) = Inr (rs ! i)"
      by (rule list_all2_nthD)
    then show ?thesis
      using that len
      by (cases "rs ! i") (auto simp: op_result_def transform_operation_def f c split: sum.splits)
  qed
  with ops len show ?thesis by (simp add: f c)
qed

theorem outputs_parallel_witness:
  "transform_to_openai_format petstore =
     Inr ([list_pets_function, create_pet_function, update_pet_function, create_thing_function],
          [list_pets_stub, create_pet_stub, update_pet_stub, create_thing_stub]) \<and>
   operations petstore = Inr petstore_operations \<and>
   (\<exists>ops. operations petstore = Inr ops \<and>
      length [list_pets_function, create_pet_function, update_pet_function,
              create_thing_function] = length ops \<and>
      length [list_pets_stub, create_pet_stub, update_pet_stub, create_thing_stub] = length ops \<and>
      (\<forall>i<length ops.
         build_function petstore (snd (snd (ops ! i))) =
           Inr ([list_pets_function, create_pet_function, update_pet_function,
                 create_thing_function] ! i) \<and>
         build_stub petstore (fst (ops ! i)) (snd (snd (ops ! i))) =
           Inr ([list_pets_stub, create_pet_stub, update_pet_stub, create_thing_stub] ! i)))"
proof -
  have t: "transform_to_openai_format petstore =
     Inr ([list_pets_function, create_pet_function, update_pet_function, create_thing_function],
          [list_pets_stub, create_pet_stub, update_pet_stub, create_thing_stub])"
    by code_simp
  have ops: "operations petstore = Inr petstore_operations"
    by code_simp
  from t ops outputs_parallel [OF t] show ?thesis by blast
qed

text \<open>
  C8. The body-parameter names of a stub are the keys of what line 98 reads, without any
  resolution, from the raw \<open>requestBody\<close>: the properties of the schema under
  \<^verbatim>\<open>application/json\<close>. When the raw request body has these properties, their names are
  the body parameters of the stub, and the stub ends with the POST lines over these
  names unless there is none. When the raw request body is only a \<^verbatim>\<open>$ref\<close>, or its content
  has no \<^verbatim>\<open>application/json\<close> entry, or the schema under \<^verbatim>\<open>application/json\<close> is absent or has
  no \<open>properties\<close> of its own (it is a \<^verbatim>\<open>$ref\<close>, say), the stub has no body parameter and
  ends with the GET lines. In every case each flattened property of each content type
  of the resolved request body has its entry in the function descriptor.
\<close>

theorem stub_body_from_raw_json:
  assumes "transform_operation spec path details = Inr (f, code)"
    and "py_getitem details ''requestBody'' = Inr rb"
  shows "(\<exists>fn pp qp body bn url.
            request_body_params details = Inr body \<and> py_keys body = Inr bn \<and>
            code = stub_text fn pp qp bn url path \<and>
            (\<forall>c media schema props.
               py_getitem rb ''content'' = Inr c \<and>
               py_getitem c ''application/json'' = Inr media \<and>
               py_getitem media ''schema'' = Inr schema \<and>
               py_getitem schema ''properties'' = Inr (PDict props) \<longrightarrow>
               body = PDict props \<and> bn = map fst props \<and>
               (props \<noteq> [] \<longrightarrow> suffix (post_lines (map fst props)) code) \<and>
               (props = [] \<longrightarrow> suffix get_lines code)) \<and>
            ((py_contains ''$ref'' rb = Inr True \<and> py_contains ''content'' rb = Inr False) \<or>
             (\<exists>c. py_getitem rb ''content'' = Inr c \<and>
                  py_contains ''application/json'' c = Inr False) \<longrightarrow>
             bn = [] \<and> suffix get_lines code) \<and>
            (\<forall>c media.
               py_getitem rb ''content'' = Inr c \<and>
               py_getitem c ''application/json'' = Inr media \<and>
               (py_contains ''schema'' media = Inr False \<or>
                (\<exists>schema. py_getitem media ''schema'' = Inr schema \<and>
                   py_contains ''properties'' schema = Inr False)) \<longrightarrow>
               bn = [] \<and> suffix get_lines code)) \<and>
         (\<exists>items. operation_contents spec details = Inr items \<and>
            (\<forall>item\<in>set items. \<exists>props names.
               content_entry spec (snd item) = Inr (props, names) \<and>
               (\<forall>kv\<in>set props. dict_lookup (ps_properties (fd_parameters f)) (fst kv) \<noteq> None)))"
proof -
  from assms(1) have bf: "build_function spec details = Inr f"
    and bs: "build_stub spec path details = Inr code"
    by (auto simp: transform_operation_def split: sum.splits)
  from build_stub_text [OF bs] obtain fn pp qp body bn url where
    b: "request_body_params details = Inr body" and k: "py_keys body = Inr bn"
    and code: "code = stub_text fn pp qp bn url path"
    by blast
  have pos: "body = PDict props \<and> bn = map fst props \<and>
      (props \<noteq> [] \<longrightarrow> suffix (post_lines (map fst props)) code) \<and>
      (props = [] \<longrightarrow> suffix get_lines code)"
    if "py_getitem rb ''content'' = Inr c \<and>
        py_getitem c ''application/json'' = Inr media \<and>
        py_getitem media ''schema'' = Inr schema \<and>
        py_getitem schema ''properties'' = Inr (PDict props)"
    for c media schema props
  proof -
    from that request_body_params_raw [OF assms(2), of c media schema] b
    have body: "body = PDict props" by (simp add: getitem_get)
    with k have bn: "bn = map fst props" by (simp add: py_keys_def)
    have "suffix (post_lines (map fst props)) code" if "props \<noteq> []"
      using that by (simp add: code bn stub_text_post)
    moreover have "suffix get_lines code" if "props = []"
      using that by (simp add: code bn stub_text_get)
    ultimately show ?thesis using body bn by blast
  qed
  have neg: "bn = [] \<and> suffix get_lines code"
    if "(py_contains ''$ref'' rb = Inr True \<and> py_contains ''content'' rb = Inr False) \<or>
        (\<exists>c. py_getitem rb ''content'' = Inr c \<and> py_contains ''application/json'' c = Inr False)"
  proof -
    from that have "py_contains ''content'' rb = Inr False \<or>
        (\<exists>c. py_getitem rb ''content'' = Inr c \<and> py_contains ''application/json'' c = Inr False)"
      by blast
    from request_body_params_empty [OF assms(2) b this] k have "bn = []"
      by (simp add: py_keys_def)
    then show ?thesis by (simp add: code stub_text_get)
  qed
  have neg2: "bn = [] \<and> suffix get_lines code"
    if "py_getitem rb ''content'' = Inr c \<and>
        py_getitem c ''application/json'' = Inr media \<and>
        (py_contains ''schema'' media = Inr False \<or>
         (\<exists>schema. py_getitem media ''schema'' = Inr schema \<and>
            py_contains ''properties'' schema = Inr False))"
    for c media
  proof -
    from that request_body_params_no_properties [OF assms(2) _ _ b, of c media] k
    have "bn = []" by (simp add: py_keys_def)
    then show ?thesis by (simp add: code stub_text_get)
  qed
  from b k code pos neg neg2 have
    "\<exists>fn pp qp body bn url.
            request_body_params details = Inr body \<and> py_keys body = Inr bn \<and>
            code = stub_text fn pp qp bn url path \<and>
            (\<forall>c media schema props.
               py_getitem rb ''content'' = Inr c \<and>
               py_getitem c ''application/json'' = Inr media \<and>
               py_getitem media ''schema'' = Inr schema \<and>
               py_getitem schema ''properties'' = Inr (PDict props) \<longrightarrow>
               body = PDict props \<and> bn = map fst props \<and>
               (props \<noteq> [] \<longrightarrow> suffix (post_lines (map fst props)) code) \<and>
               (props = [] \<longrightarrow> suffix get_lines code)) \<and>
            ((py_contains ''$ref'' rb = Inr True \<and> py_contains ''content'' rb = Inr False) \<or>
             (\<exists>c. py_getitem rb ''content'' = Inr c \<and>
                  py_contains ''application/json'' c = Inr False) \<longrightarrow>
             bn = [] \<and> suffix get_lines code) \<and>
            (\<forall>c media.
               py_getitem rb ''content'' = Inr c \<and>
               py_getitem c ''application/json'' = Inr media \<and>
               (py_contains ''schema'' media = Inr False \<or>
                (\<exists>schema. py_getitem media ''schema'' = Inr schema \<and>
                   py_contains ''properties'' schema = Inr False)) \<longrightarrow>
               bn = [] \<and> suffix get_lines code)"
    by (intro exI [of _ fn] exI [of _ pp] exI [of _ qp] exI [of _ body] exI [of _ bn]
        exI [of _ url]) blast
  with flattened_properties_present [OF bf] show ?thesis by blast
qed

theorem stub_body_from_raw_json_witness:
  "(transform_operation petstore ''/pets'' create_pet = Inr (create_pet_function, create_pet_stub) \<and>
    py_getitem create_pet ''requestBody'' = Inr pet_body_ref \<and>
    py_contains ''$ref'' pet_body_ref = Inr True \<and>
    py_contains ''content'' pet_body_ref = Inr False \<and>
    suffix get_lines create_pet_stub \<and>
    dict_lookup (ps_properties (fd_parameters create_pet_function)) (PStr ''name'') \<noteq> None) \<and>
   (transform_operation petstore ''/pets/{id}'' update_pet =
      Inr (update_pet_function, update_pet_stub) \<and>
    py_getitem update_pet ''requestBody'' = Inr (PDict [(''content'', xml_content)]) \<and>
    py_getitem (PDict [(''content'', xml_content)]) ''content'' = Inr xml_content \<and>
    py_contains ''application/json'' xml_content = Inr False \<and>
    suffix get_lines update_pet_stub) \<and>
   (transform_operation petstore ''/things'' create_thing =
      Inr (create_thing_function, create_thing_stub) \<and>
    py_getitem create_thing ''requestBody'' = Inr thing_body \<and>
    py_getitem thing_body ''content'' = Inr thing_content \<and>
    py_getitem thing_content ''application/json'' = Inr thing_media \<and>
    py_getitem thing_media ''schema'' = Inr thing_schema \<and>
    py_getitem thing_schema ''properties'' = Inr (PDict thing_properties) \<and>
    thing_properties \<noteq> [] \<and>
    request_body_params create_thing = Inr (PDict thing_properties) \<and>
    suffix (post_lines [''name'', ''age'']) create_thing_stub) \<and>
   (transform_operation petstore ''/pets'' replace_pet =
      Inr (replace_pet_function, replace_pet_stub) \<and>
    py_getitem replace_pet ''requestBody'' = Inr pet_body \<and>
    py_getitem pet_body ''content'' = Inr pet_content \<and>
    py_getitem pet_content ''application/json'' = Inr pet_media \<and>
    py_getitem pet_media ''schema'' = Inr pet_schema_ref \<and>
    py_contains ''properties'' pet_schema_ref = Inr False \<and>
    suffix get_lines replace_pet_stub \<and>
    dict_lookup (ps_properties (fd_parameters replace_pet_function)) (PStr ''name'') \<noteq> None)"
proof -
  have a: "transform_operation petstore ''/pets'' create_pet =
      Inr (create_pet_function, create_pet_stub)"
    and a': "py_getitem create_pet ''requestBody'' = Inr pet_body_ref"
    and a'': "py_contains ''$ref'' pet_body_ref = Inr True \<and>
      py_contains ''content'' pet_body_ref = Inr False"
    by code_simp+
  have b: "transform_operation petstore ''/pets/{id}'' update_pet =
      Inr (update_pet_function, update_pet_stub)"
    and b': "py_getitem update_pet ''requestBody'' = Inr (PDict [(''content'', xml_content)])"
    and b'': "py_getitem (PDict [(''content'', xml_content)]) ''content'' = Inr xml_content \<and>
      py_contains ''application/json'' xml_content = Inr False"
    by code_simp+
  have c: "transform_operation petstore ''/things'' create_thing =
      Inr (create_thing_function, create_thing_stub)"
    and c': "py_getitem create_thing ''requestBody'' = Inr thing_body"
    and c'': "py_getitem thing_body ''content'' = Inr thing_content \<and>
      py_getitem thing_content ''application/json'' = Inr thing_media \<and>
      py_getitem thing_media ''schema'' = Inr thing_schema \<and>
      py_getitem thing_schema ''properties'' = Inr (PDict thing_properties)"
    and c3: "thing_properties \<noteq> []"
    and c4: "map fst thing_properties = [''name'', ''age'']"
    by code_simp+
  have d: "transform_operation petstore ''/pets'' replace_pet =
      Inr (replace_pet_function, replace_pet_stub)"
    and d': "py_getitem replace_pet ''requestBody'' = Inr pet_body"
    and d'': "py_getitem pet_body ''content'' = Inr pet_content \<and>
      py_getitem pet_content ''application/json'' = Inr pet_media"
    and d3: "py_getitem pet_media ''schema'' = Inr pet_schema_ref \<and>
      py_contains ''properties'' pet_schema_ref = Inr False"
    by code_simp+
  have n: "dict_lookup (ps_properties (fd_parameters create_pet_function)) (PStr ''name'') \<noteq> None"
    "dict_lookup (ps_properties (fd_parameters replace_pet_function)) (PStr ''name'') \<noteq> None"
    by code_simp+
  from a'' stub_body_from_raw_json [OF a a']
  have "suffix get_lines create_pet_stub" by blast
  moreover from b'' stub_body_from_raw_json [OF b b']
  have "suffix get_lines update_pet_stub" by blast
  moreover from c'' c3 stub_body_from_raw_json [OF c c']
  have "request_body_params create_thing = Inr (PDict thing_properties) \<and>
      suffix (post_lines (map fst thing_properties)) create_thing_stub"
    by metis
  moreover from d'' d3 stub_body_from_raw_json [OF d d']
  have "suffix get_lines replace_pet_stub" by blast
  ultimately show ?thesis using a a' a'' b b' b'' c c' c'' c3 c4 d d' d'' d3 n by simp
qed

text \<open>
  C9. The input is read-only. On the store, whatever the store holds and whatever value
  is passed as the document, every object that is in the store before
  \<^verbatim>\<open>transform_to_openai_format\<close> runs is the same after it, whether the run returns its
  two lists or raises; the same holds for \<^verbatim>\<open>extract_properties\<close> and for \<^verbatim>\<open>resolve_ref\<close>.
  Every write of the converter goes to an object it has created itself.
\<close>

theorem input_unchanged:
  "touches {} (st_transform_to_openai_format spec) s \<and>
   touches {} (st_extract_properties schema spec) s \<and>
   touches {} (look (st_resolve_ref ref spec)) s"
proof -
  have "touches {} (st_transform_to_openai_format spec) s"
    unfolding st_transform_to_openai_format_def
    by (intro touches_bnd_alloc touches_bnd touches_paths_loop) simp_all
  then show ?thesis by simp
qed

theorem input_unchanged_witness:
  "touches {} (st_transform_to_openai_format small_ref) small_store \<and>
   (19::nat) < length small_store \<and> 19 \<notin> ({} :: nat set) \<and>
   snd (st_transform_to_openai_format small_ref small_store) ! 19 = small_store ! 19"
proof -
  have l: "(19::nat) < length small_store" by code_simp
  from input_unchanged [of small_ref small_store VNone VNone] l show ?thesis
    unfolding touches_def by simp
qed


text \<open>
  C10. A parameter given in the raw parameter list as a \<^verbatim>\<open>$ref\<close> object, which has no
  \<open>in\<close> key, contributes nothing to the stub: the path and query names of the stub are
  those of the other raw parameters. The name of the resolved parameter nevertheless
  has its entry in the properties of the function descriptor.
\<close>

theorem ref_parameter_not_in_stub:
  assumes "transform_operation spec path details = Inr (f, code)"
    and "py_getitem details ''parameters'' = Inr (PList (before @ p # after))"
    and "py_contains ''$ref'' p = Inr True" and "py_contains ''in'' p = Inr False"
    and "deref spec p = Inr p'" and "py_getitem p' ''name'' = Inr n"
  shows "(\<exists>fn pp qp bn url.
            code = stub_text fn pp qp bn url path \<and>
            params_in ''path'' (before @ after) = Inr (map PStr pp) \<and>
            params_in ''query'' (before @ after) = Inr (map PStr qp)) \<and>
         dict_lookup (ps_properties (fd_parameters f)) n \<noteq> None"
proof -
  from assms(1) have bf: "build_function spec details = Inr f"
    and bs: "build_stub spec path details = Inr code"
    by (auto simp: transform_operation_def split: sum.splits)
  have params: "operation_params details = Inr (before @ p # after)"
    using assms(2) by (simp add: operation_params_def getitem_get py_iter_def)
  from build_stub_text [OF bs] obtain fn pp qp bn url where
    pp: "raw_params ''path'' details = Inr (map PStr pp)"
    and qp: "raw_params ''query'' details = Inr (map PStr qp)"
    and code: "code = stub_text fn pp qp bn url path"
    by blast
  have raw: "raw_params loc details = params_in loc (before @ p # after)" for loc
    using assms(2) by (simp add: raw_params_def getitem_get py_iter_def)
  from pp obtain l where l: "py_get p ''in'' PNone = Inr l"
    unfolding raw using params_in_reads_in by blast
  from get_absent [OF assms(4) l] have "l = PNone" .
  with l have skip: "params_in loc (before @ p # after) = params_in loc (before @ after)" for loc
    by (intro params_in_skip [of p l]) simp_all
  have stub: "\<exists>fn pp qp bn url.
            code = stub_text fn pp qp bn url path \<and>
            params_in ''path'' (before @ after) = Inr (map PStr pp) \<and>
            params_in ''query'' (before @ after) = Inr (map PStr qp)"
    using pp qp code unfolding raw skip by blast
  from build_function_writes [OF bf] obtain ws where ws: "property_writes spec details = Inr ws"
    by blast
  from property_writes_parts [OF this] params
  obtain entries :: "(node \<times> property_descriptor \<times> bool) list"
    and contents :: "((node \<times> property_descriptor) list \<times> node list) list" where
    e: "collect (param_entry spec) (before @ p # after) = Inr entries"
    and w: "ws = map (\<lambda>en. (fst en, fst (snd en))) entries @ concat (map fst contents)"
    by auto
  from collect_nth [OF e, of p] obtain en where en: "param_entry spec p = Inr en" "en \<in> set entries"
    by auto
  from en(1) assms(5,6) have "fst en = n"
    by (auto simp: param_entry_def split: sum.splits if_splits)
  with en(2) have "(n, fst (snd en)) \<in> set ws" by (force simp: w)
  from written_keys_present [OF bf ws this] stub show ?thesis by blast
qed

theorem ref_parameter_not_in_stub_witness:
  "transform_operation petstore ''/pets'' list_pets = Inr (list_pets_function, list_pets_stub) \<and>
   py_getitem list_pets ''parameters'' = Inr (PList ([] @ limit_ref # [tag_param])) \<and>
   py_contains ''$ref'' limit_ref = Inr True \<and> py_contains ''in'' limit_ref = Inr False \<and>
   deref petstore limit_ref = Inr limit_param \<and>
   py_getitem limit_param ''name'' = Inr (PStr ''limit'') \<and>
   (\<exists>fn pp qp bn url.
      list_pets_stub = stub_text fn pp qp bn url ''/pets'' \<and>
      params_in ''path'' ([] @ [tag_param]) = Inr (map PStr pp) \<and>
      params_in ''query'' ([] @ [tag_param]) = Inr (map PStr qp)) \<and>
   dict_lookup (ps_properties (fd_parameters list_pets_function)) (PStr ''limit'') \<noteq> None"
proof -
  have a: "transform_operation petstore ''/pets'' list_pets =
      Inr (list_pets_function, list_pets_stub)"
    and b: "py_getitem list_pets ''parameters'' = Inr (PList ([] @ limit_ref # [tag_param]))"
    and c: "py_contains ''$ref'' limit_ref = Inr True"
    and d: "py_contains ''in'' limit_ref = Inr False"
    and e: "deref petstore limit_ref = Inr limit_param"
    and f: "py_getitem limit_param ''name'' = Inr (PStr ''limit'')"
    by code_simp+
  from ref_parameter_not_in_stub [OF a b c d e f] a b c d e f show ?thesis by blast
qed

end
